theory Spec2Isabelle
  imports Main "HOL-Library.Code_Target_Nat"
begin

section \<open>Strings, numbers and regular expressions of the host language\<close>

text \<open>
  A string of the program is a sequence of UTF-16 code units; a code unit is modelled as a
  natural number and a string as a list of them. Literals are written with \<open>js\<close>.
\<close>

type_synonym jchar = nat
type_synonym jstring = "nat list"

definition js :: "string \<Rightarrow> jstring" where
  "js s = map of_char s"

text \<open>
  \<open>\s\<close> and \<open>trim()\<close> use the same set: the white space and line terminator code units.
\<close>

definition isSpace :: "jchar \<Rightarrow> bool" where
  "isSpace c \<longleftrightarrow>
     c = 9 \<or> c = 10 \<or> c = 11 \<or> c = 12 \<or> c = 13 \<or> c = 32 \<or> c = 160 \<or> c = 5760 \<or>
     (8192 \<le> c \<and> c \<le> 8202) \<or> c = 8232 \<or> c = 8233 \<or> c = 8239 \<or> c = 8287 \<or>
     c = 12288 \<or> c = 65279"

text \<open>\<open>\d\<close> is the ASCII digits only.\<close>

definition isDigit :: "jchar \<Rightarrow> bool" where
  "isDigit c \<longleftrightarrow> 48 \<le> c \<and> c \<le> 57"

text \<open>
  \<open>toLowerCase()\<close>. The mapping is exact on the code units below 256 and on the two code
  units above whose lower case contains an ASCII letter (U+0130 and U+212A). Every other
  code unit is left as it is: its real lower case is again outside ASCII, white space and
  the dashes, and the functions below only ever look for ASCII letters, digits,
  punctuation, white space and the two dashes.
\<close>

definition lowerUnit :: "jchar \<Rightarrow> jstring" where
  "lowerUnit c =
     (if 65 \<le> c \<and> c \<le> 90 then [c + 32]
      else if 192 \<le> c \<and> c \<le> 222 \<and> c \<noteq> 215 then [c + 32]
      else if c = 304 then [105, 775]
      else if c = 8490 then [107]
      else [c])"

definition toLowerCase :: "jstring \<Rightarrow> jstring" where
  "toLowerCase s = concat (map lowerUnit s)"

definition trim :: "jstring \<Rightarrow> jstring" where
  "trim s = rev (dropWhile isSpace (rev (dropWhile isSpace s)))"

text \<open>\<open>includes(sub)\<close>: does \<open>sub\<close> occur in the string.\<close>

fun startsWith :: "jstring \<Rightarrow> jstring \<Rightarrow> bool" where
  "startsWith s [] = True"
| "startsWith [] (p # ps) = False"
| "startsWith (c # cs) (p # ps) = (c = p \<and> startsWith cs ps)"

fun includesStr :: "jstring \<Rightarrow> jstring \<Rightarrow> bool" where
  "includesStr [] sub = (sub = [])"
| "includesStr (c # cs) sub = (startsWith (c # cs) sub \<or> includesStr cs sub)"

text \<open>
  A number of the program is an integer or NaN. \<open>Number(s)\<close> is modelled on the strings
  that denote an unsigned decimal integer (surrounding white space is ignored, the empty
  string is 0); every other string is mapped to NaN. Comparisons with NaN are false and
  arithmetic with NaN is NaN.
\<close>

datatype number = NaN | Num int

fun digitsValue :: "jstring \<Rightarrow> int \<Rightarrow> int" where
  "digitsValue [] acc = acc"
| "digitsValue (c # cs) acc = digitsValue cs (acc * 10 + (int c - 48))"

definition Number :: "jstring \<Rightarrow> number" where
  "Number s =
     (let t = trim s in
      if t = [] then Num 0
      else if list_all isDigit t then Num (digitsValue t 0)
      else NaN)"

fun isNaN :: "number \<Rightarrow> bool" where
  "isNaN NaN = True"
| "isNaN (Num _) = False"

fun lt :: "number \<Rightarrow> number \<Rightarrow> bool" where
  "lt (Num a) (Num b) = (a < b)"
| "lt _ _ = False"

fun le :: "number \<Rightarrow> number \<Rightarrow> bool" where
  "le (Num a) (Num b) = (a \<le> b)"
| "le _ _ = False"

definition gt :: "number \<Rightarrow> number \<Rightarrow> bool" where
  "gt a b = lt b a"

definition ge :: "number \<Rightarrow> number \<Rightarrow> bool" where
  "ge a b = le b a"

fun eqq :: "number \<Rightarrow> number \<Rightarrow> bool" where
  "eqq (Num a) (Num b) = (a = b)"
| "eqq _ _ = False"

fun add :: "number \<Rightarrow> number \<Rightarrow> number" where
  "add (Num a) (Num b) = Num (a + b)"
| "add _ _ = NaN"

fun sub :: "number \<Rightarrow> number \<Rightarrow> number" where
  "sub (Num a) (Num b) = Num (a - b)"
| "sub _ _ = NaN"

fun mul :: "number \<Rightarrow> number \<Rightarrow> number" where
  "mul (Num a) (Num b) = Num (a * b)"
| "mul _ _ = NaN"

text \<open>\<open>value.toString()\<close> of a number, in decimal.\<close>

fun natToString :: "nat \<Rightarrow> jstring" where
  "natToString n = (if n < 10 then [48 + n] else natToString (n div 10) @ [48 + n mod 10])"

declare natToString.simps [simp del]

fun toString :: "number \<Rightarrow> jstring" where
  "toString NaN = js ''NaN''"
| "toString (Num i) = (if i < 0 then 45 # natToString (nat (- i)) else natToString (nat i))"

text \<open>\<open>padStart(2, "0")\<close>.\<close>

definition padStart2 :: "jstring \<Rightarrow> jstring" where
  "padStart2 s = replicate (2 - length s) 48 @ s"

subsection \<open>Regular expressions\<close>

text \<open>
  The regular expressions of the program use literals, \<open>\d\<close>, \<open>\s\<close>, sequence, ordered
  alternation, \<open>?\<close>, \<open>*\<close> on a single character class, capture groups and the anchors
  \<open>^\<close> and \<open>$\<close>. The matcher is the backtracking one of the language: it returns every
  way to match from a position, in the order the engine tries them (greedy first, the
  left alternative first), so that the head of the list is the match the engine reports.
  A state is the position, the rest of the input from there, and the captures so far.
\<close>

datatype atom = Chr jchar | Digit | Space

datatype rx = Eps | Atom atom | Seq rx rx | Alt rx rx | Star atom | Grp nat rx | Bol | Eol

type_synonym mstate = "nat \<times> jstring \<times> (nat \<times> jstring) list"

text \<open>
  With the flag \<open>i\<close>, two code units match when their canonical (upper case) forms agree;
  a code unit outside ASCII is never canonicalised to an ASCII one. The patterns of the
  program contain ASCII only, so the model canonicalises the ASCII letters and leaves
  every other code unit as it is.
\<close>

definition canon :: "jchar \<Rightarrow> jchar" where
  "canon c = (if 97 \<le> c \<and> c \<le> 122 then c - 32 else c)"

fun amatch :: "bool \<Rightarrow> atom \<Rightarrow> jchar \<Rightarrow> bool" where
  "amatch ic (Chr p) c = (if ic then canon c = canon p else c = p)"
| "amatch ic Digit c = isDigit c"
| "amatch ic Space c = isSpace c"

fun many :: "bool \<Rightarrow> atom \<Rightarrow> mstate \<Rightarrow> mstate list" where
  "many ic a (p, [], g) = [(p, [], g)]"
| "many ic a (p, c # cs, g) =
     (if amatch ic a c then many ic a (p + 1, cs, g) @ [(p, c # cs, g)]
      else [(p, c # cs, g)])"

fun ms :: "bool \<Rightarrow> rx \<Rightarrow> mstate \<Rightarrow> mstate list" where
  "ms ic Eps s = [s]"
| "ms ic (Atom a) (p, r, g) =
     (case r of [] \<Rightarrow> [] | c # cs \<Rightarrow> if amatch ic a c then [(p + 1, cs, g)] else [])"
| "ms ic (Seq a b) s = concat (map (ms ic b) (ms ic a s))"
| "ms ic (Alt a b) s = ms ic a s @ ms ic b s"
| "ms ic (Star a) s = many ic a s"
| "ms ic (Grp i a) (p, r, g) =
     map (\<lambda>(p', r', g'). (p', r', (i, take (p' - p) r) # g')) (ms ic a (p, r, g))"
| "ms ic Bol (p, r, g) = (if p = 0 then [(p, r, g)] else [])"
| "ms ic Eol (p, r, g) = (if r = [] then [(p, r, g)] else [])"

text \<open>
  \<open>exec\<close>: the leftmost position where the expression matches, with the start index, the
  matched text and the captures of the first way to match there.
\<close>

record rmatch =
  index :: nat
  whole :: jstring
  groups :: "(nat \<times> jstring) list"

fun execFrom :: "bool \<Rightarrow> rx \<Rightarrow> nat \<Rightarrow> jstring \<Rightarrow> rmatch option" where
  "execFrom ic re p r =
     (case ms ic re (p, r, []) of
        (e, _, g) # _ \<Rightarrow> Some \<lparr>index = p, whole = take (e - p) r, groups = g\<rparr>
      | [] \<Rightarrow> (case r of [] \<Rightarrow> None | _ # cs \<Rightarrow> execFrom ic re (p + 1) cs))"

declare execFrom.simps [simp del]

definition exec :: "bool \<Rightarrow> rx \<Rightarrow> jstring \<Rightarrow> rmatch option" where
  "exec ic re s = execFrom ic re 0 s"

definition test :: "bool \<Rightarrow> rx \<Rightarrow> jstring \<Rightarrow> bool" where
  "test ic re s = (exec ic re s \<noteq> None)"

definition group :: "rmatch \<Rightarrow> nat \<Rightarrow> jstring option" where
  "group m i = map_of (groups m) i"

text \<open>\<open>search\<close>: the index of the leftmost match, or -1.\<close>

definition search :: "bool \<Rightarrow> rx \<Rightarrow> jstring \<Rightarrow> int" where
  "search ic re s = (case exec ic re s of None \<Rightarrow> - 1 | Some m \<Rightarrow> int (index m))"

text \<open>
  \<open>match\<close> with the flag \<open>g\<close>: the texts of all matches, left to right, each search
  starting where the previous match ended (one further after an empty match). The
  argument \<open>k\<close> counts the code units still covered by the previous match.
\<close>

fun matchAll :: "bool \<Rightarrow> rx \<Rightarrow> nat \<Rightarrow> nat \<Rightarrow> jstring \<Rightarrow> jstring list" where
  "matchAll ic re k p [] =
     (if k > 0 then []
      else (case ms ic re (p, [], []) of [] \<Rightarrow> [] | _ # _ \<Rightarrow> [[]]))"
| "matchAll ic re k p (c # cs) =
     (if k > 0 then matchAll ic re (k - 1) (p + 1) cs
      else (case ms ic re (p, c # cs, []) of
              [] \<Rightarrow> matchAll ic re 0 (p + 1) cs
            | (e, _, _) # _ \<Rightarrow> take (e - p) (c # cs) # matchAll ic re (e - p - 1) (p + 1) cs))"

text \<open>Builders for the expressions as they are written in the source.\<close>

definition lit :: "string \<Rightarrow> rx" where
  "lit s = foldr (\<lambda>c r. Seq (Atom (Chr (of_char c))) r) s Eps"

definition opt :: "rx \<Rightarrow> rx" where
  "opt r = Alt r Eps"

fun seqs :: "rx list \<Rightarrow> rx" where
  "seqs [] = Eps"
| "seqs [r] = r"
| "seqs (r # rs) = Seq r (seqs rs)"

fun alts :: "rx \<Rightarrow> rx list \<Rightarrow> rx" where
  "alts r [] = r"
| "alts r (q # qs) = Alt r (alts q qs)"


section \<open>Time utilities (\<open>src/lib/time.ts\<close>)\<close>

definition NYC_TIMEZONE :: jstring where
  "NYC_TIMEZONE = js ''America/New_York''"

definition aliases :: "jstring list" where
  "aliases =
     [js ''Eastern Standard Time'', js ''Eastern Daylight Time'', js ''EST'', js ''EDT'',
      js ''US/Eastern'']"

text \<open>The argument is optional: \<open>None\<close> is the absent argument.\<close>

definition normalizeTimeZone :: "jstring option \<Rightarrow> jstring" where
  "normalizeTimeZone v =
     (case v of
        None \<Rightarrow> NYC_TIMEZONE
      | Some s \<Rightarrow>
          if s = [] then NYC_TIMEZONE
          else (let trimmed = trim s in
                if trimmed = [] then NYC_TIMEZONE
                else if trimmed \<in> set aliases then NYC_TIMEZONE
                else trimmed))"

text \<open>
  \<open>toZonedTime\<close> belongs to a library outside the repository: it is a parameter \<open>tz\<close> of
  the model, giving the local calendar fields of an instant in a time zone.
\<close>

record zoned =
  getDay :: nat
  getHours :: int
  getMinutes :: int

definition getZonedParts :: "('d \<Rightarrow> jstring \<Rightarrow> zoned) \<Rightarrow> 'd \<Rightarrow> jstring \<Rightarrow> nat \<times> int" where
  "getZonedParts tz date timeZone =
     (let z = tz date timeZone in (getDay z, getHours z * 60 + getMinutes z))"

section \<open>Hours (\<open>src/lib/hours.ts\<close>)\<close>

text \<open>
  \<open>HoursSpan\<close>: \<open>day\<close> is a weekday index (0 is Sunday, 6 is Saturday), a natural number;
  \<open>open\<close> and \<open>close\<close> are strings, \<open>HH:mm\<close> by intent and arbitrary by type.
\<close>

record HoursSpan =
  day :: nat
  "open" :: jstring
  close :: jstring

definition DAY :: rx where
  "DAY =
     alts (Seq (lit ''sun'') (opt (lit ''day'')))
       [Seq (lit ''mon'') (opt (lit ''day'')),
        Seq (lit ''tue'') (opt (Alt (lit ''s'') (lit ''sday''))),
        Seq (lit ''wed'') (opt (lit ''nesday'')),
        Seq (lit ''thu'') (opt (alts (lit ''r'') [lit ''rs'', lit ''rsday''])),
        Seq (lit ''fri'') (opt (lit ''day'')),
        Seq (lit ''sat'') (opt (lit ''urday''))]"

definition DAY_REGEX :: rx where
  "DAY_REGEX = Grp 1 DAY"

definition DAY_MAP :: "(jstring \<times> nat) list" where
  "DAY_MAP =
     [(js ''sun'', 0), (js ''sunday'', 0), (js ''mon'', 1), (js ''monday'', 1),
      (js ''tue'', 2), (js ''tues'', 2), (js ''tuesday'', 2),
      (js ''wed'', 3), (js ''weds'', 3), (js ''wednesday'', 3),
      (js ''thu'', 4), (js ''thur'', 4), (js ''thurs'', 4), (js ''thursday'', 4),
      (js ''fri'', 5), (js ''friday'', 5), (js ''sat'', 6), (js ''saturday'', 6)]"

definition pad :: "number \<Rightarrow> jstring" where
  "pad v = padStart2 (toString v)"

definition normalizeDash :: "jstring \<Rightarrow> jstring" where
  "normalizeDash text = map (\<lambda>c. if c = 8211 \<or> c = 8212 then 45 else c) text"

text \<open>\<open>split(":")\<close>.\<close>

fun splitColon :: "jstring \<Rightarrow> jstring \<Rightarrow> jstring list" where
  "splitColon [] cur = [rev cur]"
| "splitColon (c # cs) cur = (if c = 58 then rev cur # splitColon cs [] else splitColon cs (c # cur))"

text \<open>
  \<open>toMinutes\<close>: the two first fields are destructured; a missing second field is
  \<open>undefined\<close>, which \<open>Number.isNaN\<close> does not reject, and the sum is then NaN.
\<close>

definition toMinutes :: "jstring \<Rightarrow> number" where
  "toMinutes v =
     (case map Number (splitColon v []) of
        [] \<Rightarrow> NaN
      | [h] \<Rightarrow> (if isNaN h then Num 0 else NaN)
      | h # m # _ \<Rightarrow> (if isNaN h \<or> isNaN m then Num 0 else add (mul h (Num 60)) m))"

definition timeRx :: rx where
  "timeRx =
     seqs [Bol, Grp 1 (Seq (Atom Digit) (opt (Atom Digit))),
           opt (Seq (lit '':'') (Grp 2 (Seq (Atom Digit) (Atom Digit)))),
           opt (Grp 3 (Alt (lit ''am'') (lit ''pm''))), Eol]"

text \<open>A string or \<open>undefined\<close>/\<open>null\<close> used as a condition: true when present and not empty.\<close>

definition truthy :: "jstring option \<Rightarrow> bool" where
  "truthy v = (case v of None \<Rightarrow> False | Some s \<Rightarrow> s \<noteq> [])"

text \<open>
  \<open>parseTimeTo24h\<close>. The variable \<open>hour\<close> is assigned in the meridiem branch; the model
  computes the adjusted hour, or \<open>None\<close> where the source returns null from the branch.
\<close>

definition parseTimeTo24h :: "jstring \<Rightarrow> jstring option" where
  "parseTimeTo24h v =
     (let cleaned = filter (\<lambda>c. c \<noteq> 46) (filter (\<lambda>c. \<not> isSpace c) (toLowerCase v)) in
      case exec True timeRx cleaned of
        None \<Rightarrow> None
      | Some m \<Rightarrow>
          (let hour = (case group m 1 of Some s \<Rightarrow> Number s | None \<Rightarrow> NaN);
               minute = (case group m 2 of
                           Some s \<Rightarrow> if s \<noteq> [] then Number s else Num 0
                         | None \<Rightarrow> Num 0);
               meridiem = group m 3
           in if lt minute (Num 0) \<or> gt minute (Num 59) then None
              else
                (case (if truthy meridiem then
                         (if lt hour (Num 1) \<or> gt hour (Num 12) then None
                          else if meridiem = Some (js ''am'') then
                            Some (if eqq hour (Num 12) then Num 0 else hour)
                          else Some (if eqq hour (Num 12) then Num 12 else add hour (Num 12)))
                       else if lt hour (Num 0) \<or> gt hour (Num 24) then None
                       else Some hour) of
                   None \<Rightarrow> None
                 | Some hour' \<Rightarrow>
                     if eqq hour' (Num 24) \<and> \<not> eqq minute (Num 0) then None
                     else Some (pad hour' @ js '':'' @ pad minute))))"

text \<open>\<open>expandDayRange\<close>: the loop runs at most seven times; the first argument counts what is left.\<close>

fun expandLoop :: "nat \<Rightarrow> nat \<Rightarrow> nat \<Rightarrow> nat list" where
  "expandLoop 0 current end = []"
| "expandLoop (Suc n) current end =
     current # (if current = end then [] else expandLoop n ((current + 1) mod 7) end)"

definition expandDayRange :: "nat \<Rightarrow> nat \<Rightarrow> nat list" where
  "expandDayRange start end = expandLoop 7 start end"

definition dayRangeRx :: rx where
  "dayRangeRx =
     seqs [Grp 1 DAY, Star Space, Alt (lit ''-'') (lit ''to''), Star Space, Grp 2 DAY]"

text \<open>\<open>Array.from(new Set(days))\<close>: the first occurrence of each day, in order.\<close>

fun uniq :: "nat list \<Rightarrow> nat list \<Rightarrow> nat list" where
  "uniq seen [] = []"
| "uniq seen (d # ds) = (if d \<in> set seen then uniq seen ds else d # uniq (d # seen) ds)"

definition dayTokens :: "jstring \<Rightarrow> nat list" where
  "dayTokens normalized =
     uniq [] (List.map_filter (map_of DAY_MAP) (matchAll True DAY_REGEX 0 0 normalized))"

definition parseDaysPart :: "jstring \<Rightarrow> nat list" where
  "parseDaysPart text =
     (let normalized = trim (normalizeDash (toLowerCase text)) in
      if normalized = [] then []
      else if includesStr normalized (js ''daily'') \<or> includesStr normalized (js ''every day'')
              \<or> includesStr normalized (js ''everyday'')
      then [0, 1, 2, 3, 4, 5, 6]
      else
        (case exec False dayRangeRx normalized of
           Some m \<Rightarrow>
             (case (Option.bind (group m 1) (map_of DAY_MAP),
                    Option.bind (group m 2) (map_of DAY_MAP)) of
                (Some start, Some end) \<Rightarrow> expandDayRange start end
              | _ \<Rightarrow> dayTokens normalized)
         | None \<Rightarrow> dayTokens normalized))"

definition timeToken :: rx where
  "timeToken =
     seqs [Atom Digit, opt (Atom Digit), opt (seqs [lit '':'', Atom Digit, Atom Digit]),
           Star Space, opt (Alt (lit ''am'') (lit ''pm''))]"

definition timeRangeRx :: rx where
  "timeRangeRx = seqs [Grp 1 timeToken, Star Space, lit ''-'', Star Space, Grp 2 timeToken]"

definition hours24Rx :: rx where
  "hours24Rx = seqs [lit ''24'', Star Space, lit ''hour'', opt (lit ''s'')]"

definition open24Rx :: rx where
  "open24Rx = seqs [lit ''open'', Star Space, lit ''24'']"

definition parseTimeRange :: "jstring \<Rightarrow> (jstring \<times> jstring) option" where
  "parseTimeRange text =
     (let normalized = normalizeDash text in
      if test True hours24Rx normalized \<or> test True open24Rx normalized
      then Some (js ''00:00'', js ''24:00'')
      else
        (case exec True timeRangeRx normalized of
           None \<Rightarrow> None
         | Some m \<Rightarrow>
             (let opn = Option.bind (group m 1) parseTimeTo24h;
                  cls = Option.bind (group m 2) parseTimeTo24h
              in case (opn, cls) of
                   (Some opn', Some cls') \<Rightarrow>
                     if opn' = [] \<or> cls' = [] then None else Some (opn', cls')
                 | _ \<Rightarrow> None)))"

definition normalizeSpan :: "HoursSpan \<Rightarrow> HoursSpan list" where
  "normalizeSpan span =
     (let openMinutes = toMinutes (open span);
          closeMinutes = toMinutes (close span)
      in if eqq openMinutes closeMinutes then []
         else if lt openMinutes closeMinutes then [span]
         else [\<lparr>day = day span, open = open span, close = js ''24:00''\<rparr>,
               \<lparr>day = (day span + 1) mod 7, open = js ''00:00'', close = close span\<rparr>])"

definition closedRx :: rx where
  "closedRx = lit ''closed''"

text \<open>The two locals of the loop body that pick the day-spec text of a (trimmed) line.\<close>

definition timeIndex :: "jstring \<Rightarrow> int" where
  "timeIndex line = search False (Atom Digit) (normalizeDash line)"

definition daysPart :: "jstring \<Rightarrow> jstring" where
  "daysPart line = (if timeIndex line > 0 then take (nat (timeIndex line)) line else line)"

text \<open>The loop over the lines, with the array \<open>spans\<close> it pushes to.\<close>

fun collect :: "jstring list \<Rightarrow> HoursSpan list \<Rightarrow> HoursSpan list" where
  "collect [] spans = spans"
| "collect (rawLine # rest) spans =
     (let line = trim rawLine in
      if line = [] then collect rest spans
      else if test True closedRx line then collect rest spans
      else
        (case parseTimeRange line of
           None \<Rightarrow> collect rest spans
         | Some timeRange \<Rightarrow>
             (let days = parseDaysPart (daysPart line) in
              if length days = 0 then collect rest spans
              else collect rest
                     (spans @ map (\<lambda>d. \<lparr>day = d, open = fst timeRange, close = snd timeRange\<rparr>) days))))"

definition parseHoursLines :: "jstring list \<Rightarrow> HoursSpan list" where
  "parseHoursLines lines = concat (map normalizeSpan (collect lines []))"

subsection \<open>The status engine\<close>

text \<open>The time zone argument is optional and defaults to \<open>NYC_TIMEZONE\<close>.\<close>

definition zoneArg :: "jstring option \<Rightarrow> jstring option" where
  "zoneArg timeZone = (case timeZone of None \<Rightarrow> Some NYC_TIMEZONE | Some z \<Rightarrow> Some z)"

definition contains :: "int \<Rightarrow> HoursSpan \<Rightarrow> bool" where
  "contains minutes span \<longleftrightarrow>
     ge (Num minutes) (toMinutes (open span)) \<and> lt (Num minutes) (toMinutes (close span))"

definition isOpenAt ::
  "('d \<Rightarrow> jstring \<Rightarrow> zoned) \<Rightarrow> HoursSpan list \<Rightarrow> 'd \<Rightarrow> jstring option \<Rightarrow> bool" where
  "isOpenAt tz spans date timeZone =
     (if length spans = 0 then False
      else
        (case getZonedParts tz date (normalizeTimeZone (zoneArg timeZone)) of
           (dy, minutes) \<Rightarrow>
             list_ex (\<lambda>span. if day span \<noteq> dy then False else contains minutes span) spans))"

datatype HoursStatus = open_status | closing_soon | opening_soon | closed

record HoursStatusResult =
  status :: HoursStatus
  minutesUntilClose :: "number option"
  minutesUntilOpen :: "number option"

record HoursStatusOptions =
  closingSoonMinutes :: "number option"
  openingSoonMinutes :: "number option"

text \<open>\<open>Math.min\<close> of a non-empty argument list: NaN as soon as one argument is.\<close>

fun min2 :: "number \<Rightarrow> number \<Rightarrow> number" where
  "min2 (Num a) (Num b) = Num (min a b)"
| "min2 _ _ = NaN"

definition mathMin :: "number \<Rightarrow> number list \<Rightarrow> number" where
  "mathMin x xs = fold (\<lambda>y acc. min2 acc y) xs x"

text \<open>
  \<open>sort((a, b) => a - b)\<close> is applied to numbers that passed \<open>openMinutes > minutes\<close>,
  so none is NaN; the key of NaN is never used.
\<close>

fun sortKey :: "number \<Rightarrow> int" where
  "sortKey (Num a) = a"
| "sortKey NaN = 0"

definition openSpanOf :: "HoursSpan list \<Rightarrow> int \<Rightarrow> HoursSpan option" where
  "openSpanOf daySpans minutes = find (contains minutes) daySpans"

text \<open>
  \<open>getHoursStatus\<close> is written here in three parts: the block that runs when an open span
  was found, the block that runs otherwise, and the function itself.
\<close>

definition untilCloseOf :: "HoursSpan list \<Rightarrow> nat \<Rightarrow> int \<Rightarrow> HoursSpan \<Rightarrow> number" where
  "untilCloseOf spans dy minutes openSpan =
     (if close openSpan = js ''24:00'' then
        (let nextDay = (dy + 1) mod 7;
             nextDaySpans = filter (\<lambda>span. day span = nextDay) spans
         in case find (\<lambda>span. open span = js ''00:00'') nextDaySpans of
              Some midnightSpan \<Rightarrow> add (Num (24 * 60 - minutes)) (toMinutes (close midnightSpan))
            | None \<Rightarrow> sub (toMinutes (close openSpan)) (Num minutes))
      else sub (toMinutes (close openSpan)) (Num minutes))"

definition whenOpen ::
  "HoursSpan list \<Rightarrow> nat \<Rightarrow> int \<Rightarrow> number \<Rightarrow> HoursSpan \<Rightarrow> HoursStatusResult" where
  "whenOpen spans dy minutes closingSoon openSpan =
     (let openAllDay = (open openSpan = js ''00:00'' \<and> close openSpan = js ''24:00'');
          untilClose = (if \<not> openAllDay then Some (untilCloseOf spans dy minutes openSpan) else None)
      in if \<not> openAllDay \<and> (case untilClose of None \<Rightarrow> False | Some u \<Rightarrow> le u closingSoon)
         then \<lparr>status = closing_soon, minutesUntilClose = untilClose, minutesUntilOpen = None\<rparr>
         else \<lparr>status = open_status, minutesUntilClose = untilClose, minutesUntilOpen = None\<rparr>)"

definition untilOpenOf :: "HoursSpan list \<Rightarrow> HoursSpan list \<Rightarrow> nat \<Rightarrow> int \<Rightarrow> number option" where
  "untilOpenOf spans daySpans dy minutes =
     (case sort_key sortKey
             (filter (\<lambda>openMinutes. gt openMinutes (Num minutes))
                (map (\<lambda>span. toMinutes (open span)) daySpans)) of
        nextOpenToday # _ \<Rightarrow> Some (sub nextOpenToday (Num minutes))
      | [] \<Rightarrow>
          (let nextDay = (dy + 1) mod 7;
               nextDaySpans = filter (\<lambda>span. day span = nextDay) spans
           in case map (\<lambda>span. toMinutes (open span)) nextDaySpans of
                [] \<Rightarrow> None
              | x # xs \<Rightarrow> Some (add (Num (24 * 60 - minutes)) (mathMin x xs))))"

definition whenClosed ::
  "HoursSpan list \<Rightarrow> HoursSpan list \<Rightarrow> nat \<Rightarrow> int \<Rightarrow> number \<Rightarrow> HoursStatusResult" where
  "whenClosed spans daySpans dy minutes openingSoon =
     (let untilOpen = untilOpenOf spans daySpans dy minutes
      in if (case untilOpen of None \<Rightarrow> False | Some u \<Rightarrow> le u openingSoon)
         then \<lparr>status = opening_soon, minutesUntilClose = None, minutesUntilOpen = untilOpen\<rparr>
         else \<lparr>status = closed, minutesUntilClose = None, minutesUntilOpen = untilOpen\<rparr>)"

definition getHoursStatus ::
  "('d \<Rightarrow> jstring \<Rightarrow> zoned) \<Rightarrow> HoursSpan list \<Rightarrow> 'd \<Rightarrow> jstring option \<Rightarrow>
     HoursStatusOptions \<Rightarrow> HoursStatusResult" where
  "getHoursStatus tz spans date timeZone options =
     (if length spans = 0
      then \<lparr>status = closed, minutesUntilClose = None, minutesUntilOpen = None\<rparr>
      else
        (let closingSoon = (case closingSoonMinutes options of None \<Rightarrow> Num 90 | Some v \<Rightarrow> v);
             openingSoon = (case openingSoonMinutes options of None \<Rightarrow> Num 60 | Some v \<Rightarrow> v)
         in case getZonedParts tz date (normalizeTimeZone (zoneArg timeZone)) of
           (dy, minutes) \<Rightarrow>
             (let daySpans = filter (\<lambda>span. day span = dy) spans in
              case openSpanOf daySpans minutes of
                Some openSpan \<Rightarrow> whenOpen spans dy minutes closingSoon openSpan
              | None \<Rightarrow> whenClosed spans daySpans dy minutes openingSoon)))"

section \<open>Definitions used to state the properties\<close>

text \<open>
  A time-zone library that reports the same local weekday, hour and minute for every
  instant and zone; the instants are of type \<open>unit\<close>.
\<close>

definition atLocal :: "nat \<Rightarrow> int \<Rightarrow> int \<Rightarrow> unit \<Rightarrow> jstring \<Rightarrow> zoned" where
  "atLocal d h m date timeZone = \<lparr>getDay = d, getHours = h, getMinutes = m\<rparr>"

text \<open>The options object without threshold overrides.\<close>

definition noOverrides :: HoursStatusOptions where
  "noOverrides = \<lparr>closingSoonMinutes = None, openingSoonMinutes = None\<rparr>"

text \<open>
  The minutes of the week, counted from Sunday 00:00, that a span covers: those of its day
  from its open minute up to, not including, its close minute.
\<close>

definition weekMinutes :: "HoursSpan \<Rightarrow> int set" where
  "weekMinutes span =
     (case (toMinutes (open span), toMinutes (close span)) of
        (Num a, Num b) \<Rightarrow> (\<lambda>m. int (day span) * 1440 + m) ` {a..<b}
      | _ \<Rightarrow> {})"

text \<open>
  The wraparound span that starts on day \<open>d\<close> at minute \<open>opn\<close> and ends on the following day
  at minute \<open>cls\<close>, as minutes of the week (the week has 10080 minutes).
\<close>

definition wrapSpan :: "nat \<Rightarrow> int \<Rightarrow> int \<Rightarrow> int set" where
  "wrapSpan d opn cls = (\<lambda>t. (int d * 1440 + t) mod 10080) ` {opn..<1440 + cls}"

text \<open>
  The clock-time rules in the specification's words (section 4.2): after white space and
  periods are removed and the text is lower-cased (\<open>cleanText\<close>), a text is a one or two
  digit hour, optionally \<open>:MM\<close>, optionally \<open>am\<close> or \<open>pm\<close> (\<open>clockShape\<close>), and nothing else;
  \<open>clockRule\<close> states what the hour, the minute and the suffix give.
\<close>

definition hourPart :: "jstring \<Rightarrow> (jstring \<times> jstring) option" where
  "hourPart s =
     (case s of
        [] \<Rightarrow> None
      | a # r \<Rightarrow>
          if isDigit a then
            (case r of
               [] \<Rightarrow> Some ([a], [])
             | b # r' \<Rightarrow> if isDigit b then Some ([a, b], r') else Some ([a], r))
          else None)"

definition minutePart :: "jstring \<Rightarrow> jstring option \<times> jstring" where
  "minutePart s =
     (case s of
        c # a # b # r \<Rightarrow> if c = 58 \<and> isDigit a \<and> isDigit b then (Some [a, b], r) else (None, s)
      | _ \<Rightarrow> (None, s))"

definition meridiemPart :: "jstring \<Rightarrow> jstring option option" where
  "meridiemPart s =
     (if s = [] then Some None
      else if s = js ''am'' \<or> s = js ''pm'' then Some (Some s)
      else None)"

definition clockShape :: "jstring \<Rightarrow> (jstring \<times> jstring option \<times> jstring option) option" where
  "clockShape s =
     (case hourPart s of
        None \<Rightarrow> None
      | Some (h, r) \<Rightarrow>
          (case minutePart r of
             (m, r') \<Rightarrow>
               (case meridiemPart r' of
                  None \<Rightarrow> None
                | Some mer \<Rightarrow> Some (h, m, mer))))"

definition cleanText :: "jstring \<Rightarrow> jstring" where
  "cleanText v = filter (\<lambda>c. c \<noteq> 46) (filter (\<lambda>c. \<not> isSpace c) (toLowerCase v))"

definition clockText :: "int \<Rightarrow> int \<Rightarrow> jstring" where
  "clockText h m = pad (Num h) @ js '':'' @ pad (Num m)"

definition clockRule :: "int \<Rightarrow> int \<Rightarrow> jstring option \<Rightarrow> jstring option" where
  "clockRule hour minute mer =
     (if minute > 59 then None
      else
        (case mer of
           Some x \<Rightarrow>
             if hour < 1 \<or> hour > 12 then None
             else if x = js ''am'' then Some (clockText (if hour = 12 then 0 else hour) minute)
             else Some (clockText (if hour = 12 then 12 else hour + 12) minute)
         | None \<Rightarrow>
             if hour > 24 then None
             else if hour = 24 \<and> minute \<noteq> 0 then None
             else Some (clockText hour minute)))"

definition noUpper :: "jstring \<Rightarrow> bool" where
  "noUpper s = list_all (\<lambda>c. \<not> (65 \<le> c \<and> c \<le> 90)) s"

text \<open>The parts of \<open>timeRx\<close> after the anchor, from the right.\<close>

definition K3 :: rx where
  "K3 = Seq (opt (Grp 3 (Alt (lit ''am'') (lit ''pm'')))) Eol"

definition K2 :: rx where
  "K2 = Seq (opt (Seq (lit '':'') (Grp 2 (Seq (Atom Digit) (Atom Digit))))) K3"

definition K1 :: rx where
  "K1 = Seq (Grp 1 (Seq (Atom Digit) (opt (Atom Digit)))) K2"

text \<open>
  What the regular-expression engine can never do: \<open>needs re x\<close> holds when every match of
  \<open>re\<close> consumes a code unit whose canonical form is \<open>x\<close>.
\<close>

fun needs :: "rx \<Rightarrow> jchar \<Rightarrow> bool" where
  "needs (Atom (Chr c)) x = (canon c = x)"
| "needs (Seq a b) x = (needs a x \<or> needs b x)"
| "needs (Alt a b) x = (needs a x \<and> needs b x)"
| "needs (Grp i a) x = needs a x"
| "needs _ x = False"

text \<open>
  The canonical textual rendering of an interval, in the specification's words (section 8):
  the day label, the open time, \<open>" - "\<close> and the close time, as in \<open>Mon 09:00 - 17:00\<close>. The
  labels are those of the page component. A canonical clock time is \<open>HH:MM\<close> with \<open>MM\<close> up to
  59 and \<open>HH\<close> up to 23, or 24:00; a canonical interval has a weekday index, two canonical
  clock times and its open minute before its close minute.
\<close>

definition DAY_LABELS :: "jstring list" where
  "DAY_LABELS = [js ''Sun'', js ''Mon'', js ''Tue'', js ''Wed'', js ''Thu'', js ''Fri'', js ''Sat'']"

definition render :: "HoursSpan \<Rightarrow> jstring" where
  "render span = DAY_LABELS ! day span @ js '' '' @ open span @ js '' - '' @ close span"

definition clockValid :: "int \<Rightarrow> int \<Rightarrow> bool" where
  "clockValid h m \<longleftrightarrow> m \<le> 59 \<and> (h \<le> 23 \<or> (h = 24 \<and> m = 0))"

definition isClockTime :: "jstring \<Rightarrow> bool" where
  "isClockTime s =
     (case s of
        [a, b, c, d, e] \<Rightarrow>
          isDigit a \<and> isDigit b \<and> c = 58 \<and> isDigit d \<and> isDigit e \<and>
          clockValid (10 * (int a - 48) + (int b - 48)) (10 * (int d - 48) + (int e - 48))
      | _ \<Rightarrow> False)"

definition canonical :: "HoursSpan \<Rightarrow> bool" where
  "canonical span \<longleftrightarrow>
     day span < 7 \<and> isClockTime (open span) \<and> isClockTime (close span) \<and>
     lt (toMinutes (open span)) (toMinutes (close span))"

text \<open>The facts about a day label that the round trip uses, as one executable test.\<close>

definition labelOk :: "nat \<Rightarrow> bool" where
  "labelOk dy \<longleftrightarrow>
     DAY_LABELS ! dy \<noteq> [] \<and> \<not> isSpace (hd (DAY_LABELS ! dy)) \<and>
     list_all (\<lambda>c. \<not> isDigit c \<and> c \<noteq> 8211 \<and> c \<noteq> 8212 \<and> canon c \<noteq> 80 \<and> canon c \<noteq> 67)
       (DAY_LABELS ! dy) \<and>
     (list_all (\<lambda>c. canon c \<noteq> 79) (DAY_LABELS ! dy) \<or>
      list_all (\<lambda>c. canon c \<noteq> 82) (DAY_LABELS ! dy)) \<and>
     parseDaysPart (DAY_LABELS ! dy @ [32]) = [dy]"

section \<open>Properties\<close>

subsection \<open>Evaluation of the clock strings that occur below\<close>

lemma toMinutes_2400: "toMinutes (js ''24:00'') = Num 1440"
  by code_simp

lemma toMinutes_0000: "toMinutes (js ''00:00'') = Num 0"
  by code_simp

lemma toMinutes_0200: "toMinutes (js ''02:00'') = Num 120"
  by code_simp

lemma toMinutes_2200: "toMinutes (js ''22:00'') = Num 1320"
  by code_simp

lemma clock_0200_not_2400: "js ''02:00'' \<noteq> js ''24:00''"
  by code_simp

subsection \<open>The status engine on a found or a missing open span\<close>

lemma find_filter_None:
  "find P (filter Q xs) = None \<longleftrightarrow> \<not> list_ex (\<lambda>x. Q x \<and> P x) xs"
  by (induction xs) auto

lemma openSpanOf_Some:
  "openSpanOf xs minutes = Some s \<Longrightarrow> s \<in> set xs \<and> contains minutes s"
  unfolding openSpanOf_def by (induction xs) (auto split: if_splits)

lemma status_whenOpen:
  "status (whenOpen spans dy minutes cs s) = open_status \<or>
   status (whenOpen spans dy minutes cs s) = closing_soon"
  unfolding whenOpen_def Let_def by simp

lemma status_whenClosed:
  "status (whenClosed spans ds dy minutes os) = opening_soon \<or>
   status (whenClosed spans ds dy minutes os) = closed"
  unfolding whenClosed_def Let_def by simp

lemma getHoursStatus_found:
  assumes "getZonedParts tz date (normalizeTimeZone (zoneArg timeZone)) = (dy, minutes)"
    and "openSpanOf (filter (\<lambda>span. day span = dy) spans) minutes = Some s"
  shows "getHoursStatus tz spans date timeZone options =
           whenOpen spans dy minutes
             (case closingSoonMinutes options of None \<Rightarrow> Num 90 | Some v \<Rightarrow> v) s"
proof -
  from openSpanOf_Some [OF assms(2)] have "length spans \<noteq> 0" by auto
  then show ?thesis unfolding getHoursStatus_def Let_def using assms by simp
qed

lemma getHoursStatus_not_found:
  assumes "getZonedParts tz date (normalizeTimeZone (zoneArg timeZone)) = (dy, minutes)"
    and "openSpanOf (filter (\<lambda>span. day span = dy) spans) minutes = None"
  shows "status (getHoursStatus tz spans date timeZone options) = opening_soon \<or>
         status (getHoursStatus tz spans date timeZone options) = closed"
proof (cases "length spans = 0")
  case True
  then show ?thesis unfolding getHoursStatus_def by simp
next
  case False
  then have "getHoursStatus tz spans date timeZone options =
     whenClosed spans (filter (\<lambda>span. day span = dy) spans) dy minutes
       (case openingSoonMinutes options of None \<Rightarrow> Num 60 | Some v \<Rightarrow> v)"
    unfolding getHoursStatus_def Let_def using assms by simp
  then show ?thesis using status_whenClosed by simp
qed

lemma atLocal_parts:
  "getZonedParts (atLocal d h m) () z = (d, h * 60 + m)"
  by (simp add: getZonedParts_def atLocal_def)

subsection \<open>The overnight line of Tuesday, asked on Wednesday\<close>

lemma tue_overnight_lines:
  "parseHoursLines [js ''Tue 10:00pm - 2:00am''] =
     [\<lparr>day = 2, open = js ''22:00'', close = js ''24:00''\<rparr>,
      \<lparr>day = 3, open = js ''00:00'', close = js ''02:00''\<rparr>]"
  by code_simp

lemma tue_overnight_at_wed_90:
  "openSpanOf (filter (\<lambda>span. day span = 3) (parseHoursLines [js ''Tue 10:00pm - 2:00am''])) 90 =
     Some \<lparr>day = 3, open = js ''00:00'', close = js ''02:00''\<rparr>"
  unfolding tue_overnight_lines
  by (simp add: openSpanOf_def contains_def ge_def toMinutes_0000 toMinutes_0200)

lemma tue_overnight_whenOpen:
  "whenOpen spans 3 90 (Num 90) \<lparr>day = 3, open = js ''00:00'', close = js ''02:00''\<rparr> =
     \<lparr>status = closing_soon, minutesUntilClose = Some (Num 30), minutesUntilOpen = None\<rparr>"
  by (simp add: whenOpen_def untilCloseOf_def clock_0200_not_2400 toMinutes_0200)

text \<open>
  C1 (as the code has it). The line \<open>Tue 10:00pm - 2:00am\<close> is parsed; a query whose local
  time is Wednesday 01:30 (day 3, minute 90), with no threshold overrides, finds the
  Wednesday half of the split span, 30 minutes before its close. 30 is within the default
  threshold of 90, so the status is \<open>closing_soon\<close>, with \<open>minutesUntilClose = 30\<close>.
\<close>

theorem wed_0130_closing_soon:
  assumes "getZonedParts tz date (normalizeTimeZone (zoneArg timeZone)) = (3, 90)"
  shows "getHoursStatus tz (parseHoursLines [js ''Tue 10:00pm - 2:00am'']) date timeZone noOverrides =
           \<lparr>status = closing_soon, minutesUntilClose = Some (Num 30), minutesUntilOpen = None\<rparr>"
  unfolding getHoursStatus_found [OF assms tue_overnight_at_wed_90]
  by (simp add: noOverrides_def tue_overnight_whenOpen)

theorem wed_0130_closing_soon_witness:
  "getZonedParts (atLocal 3 1 30) () (normalizeTimeZone (zoneArg None)) = (3, 90) \<and>
   getHoursStatus (atLocal 3 1 30) (parseHoursLines [js ''Tue 10:00pm - 2:00am'']) () None noOverrides =
     \<lparr>status = closing_soon, minutesUntilClose = Some (Num 30), minutesUntilOpen = None\<rparr>"
proof -
  have h: "getZonedParts (atLocal 3 1 30) () (normalizeTimeZone (zoneArg None)) = (3, 90)"
    by (simp add: atLocal_parts)
  show ?thesis using h wed_0130_closing_soon [OF h] by simp
qed

text \<open>
  C1 as the specification states it, refuted: at that query the status is not \<open>open\<close>.
\<close>

theorem wed_0130_not_open:
  "status (getHoursStatus (atLocal 3 1 30) (parseHoursLines [js ''Tue 10:00pm - 2:00am'']) () None
     noOverrides) \<noteq> open_status"
proof -
  have h: "getZonedParts (atLocal 3 1 30) () (normalizeTimeZone (zoneArg None)) = (3, 90)"
    by (simp add: atLocal_parts)
  show ?thesis
    unfolding getHoursStatus_found [OF h tue_overnight_at_wed_90]
    by (simp add: noOverrides_def tue_overnight_whenOpen)
qed

subsection \<open>A span that closes at midnight\<close>

text \<open>
  C3, evaluated where it fails. The line \<open>Mon 10pm - 12am\<close> gives the tentative span
  22:00 to 00:00; the split keeps a second interval from 00:00 to 00:00 on Tuesday, whose
  open and close are the same minute.
\<close>

theorem midnight_close_zero_length:
  "parseHoursLines [js ''Mon 10pm - 12am''] =
     [\<lparr>day = 1, open = js ''22:00'', close = js ''24:00''\<rparr>,
      \<lparr>day = 2, open = js ''00:00'', close = js ''00:00''\<rparr>] \<and>
   list_ex (\<lambda>span. \<not> lt (toMinutes (open span)) (toMinutes (close span)))
     (parseHoursLines [js ''Mon 10pm - 12am''])"
  by code_simp

subsection \<open>The countdown across midnight\<close>

text \<open>
  C4. When the span \<open>s\<close> that contains the query minute closes at 24:00 and is not the
  all-day span, \<open>minutesUntilClose\<close> is \<open>(24*60 - minutes)\<close> plus the close of the first
  span of the next day that opens at 00:00, and \<open>24*60 - minutes\<close> when the next day has no
  such span.
\<close>

theorem midnight_continuation:
  assumes zp: "getZonedParts tz date (normalizeTimeZone (zoneArg timeZone)) = (dy, minutes)"
    and s: "openSpanOf (filter (\<lambda>span. day span = dy) spans) minutes = Some s"
    and c: "close s = js ''24:00''"
    and nad: "\<not> (open s = js ''00:00'' \<and> close s = js ''24:00'')"
  shows "minutesUntilClose (getHoursStatus tz spans date timeZone options) =
     (case find (\<lambda>span. open span = js ''00:00'')
             (filter (\<lambda>span. day span = (dy + 1) mod 7) spans) of
        Some n \<Rightarrow> Some (add (Num (24 * 60 - minutes)) (toMinutes (close n)))
      | None \<Rightarrow> Some (Num (24 * 60 - minutes)))"
proof -
  have u: "untilCloseOf spans dy minutes s =
     (case find (\<lambda>span. open span = js ''00:00'')
             (filter (\<lambda>span. day span = (dy + 1) mod 7) spans) of
        Some n \<Rightarrow> add (Num (24 * 60 - minutes)) (toMinutes (close n))
      | None \<Rightarrow> Num (24 * 60 - minutes))"
    unfolding untilCloseOf_def Let_def using c by (simp add: toMinutes_2400 split: option.splits)
  have "minutesUntilClose (whenOpen spans dy minutes cs s) = Some (untilCloseOf spans dy minutes s)"
    for cs
    unfolding whenOpen_def Let_def using nad c by simp
  then show ?thesis
    unfolding getHoursStatus_found [OF zp s] u by (simp split: option.splits)
qed

theorem midnight_continuation_witness:
  "getZonedParts (atLocal 1 23 0) () (normalizeTimeZone (zoneArg None)) = (1, 1380) \<and>
   openSpanOf (filter (\<lambda>span. day span = 1)
       [\<lparr>day = 1, open = js ''22:00'', close = js ''24:00''\<rparr>,
        \<lparr>day = 2, open = js ''00:00'', close = js ''02:00''\<rparr>]) 1380 =
     Some \<lparr>day = 1, open = js ''22:00'', close = js ''24:00''\<rparr> \<and>
   close \<lparr>day = 1, open = js ''22:00'', close = js ''24:00''\<rparr> = js ''24:00'' \<and>
   open \<lparr>day = 1, open = js ''22:00'', close = js ''24:00''\<rparr> \<noteq> js ''00:00'' \<and>
   js ''22:00'' \<noteq> js ''00:00'' \<and>
   minutesUntilClose (getHoursStatus (atLocal 1 23 0)
       [\<lparr>day = 1, open = js ''22:00'', close = js ''24:00''\<rparr>,
        \<lparr>day = 2, open = js ''00:00'', close = js ''02:00''\<rparr>] () None noOverrides) =
     Some (Num 180)"
proof -
  have h1: "getZonedParts (atLocal 1 23 0) () (normalizeTimeZone (zoneArg None)) = (1, 1380)"
    by (simp add: atLocal_parts)
  have h2: "openSpanOf (filter (\<lambda>span. day span = 1)
       [\<lparr>day = 1, open = js ''22:00'', close = js ''24:00''\<rparr>,
        \<lparr>day = 2, open = js ''00:00'', close = js ''02:00''\<rparr>]) 1380 =
     Some \<lparr>day = 1, open = js ''22:00'', close = js ''24:00''\<rparr>"
    by (simp add: openSpanOf_def contains_def ge_def toMinutes_2200 toMinutes_2400)
  have h3: "close \<lparr>day = 1, open = js ''22:00'', close = js ''24:00''\<rparr> = js ''24:00''"
    by simp
  have h4: "open \<lparr>day = 1, open = js ''22:00'', close = js ''24:00''\<rparr> \<noteq> js ''00:00''"
    by code_simp
  then have h5: "\<not> (open \<lparr>day = 1, open = js ''22:00'', close = js ''24:00''\<rparr> = js ''00:00'' \<and>
      close \<lparr>day = 1, open = js ''22:00'', close = js ''24:00''\<rparr> = js ''24:00'')"
    by simp
  show ?thesis
    using h1 h2 h4 midnight_continuation [OF h1 h2 h3 h5, of noOverrides]
    by (simp add: toMinutes_0200)
qed

subsection \<open>The boolean check and the status engine\<close>

text \<open>
  C10. For every span list, instant, time zone and options, \<open>isOpenAt\<close> is true exactly when
  the status of \<open>getHoursStatus\<close> is \<open>open\<close> or \<open>closing_soon\<close>.
\<close>

theorem isOpenAt_agrees:
  "isOpenAt tz spans date timeZone \<longleftrightarrow>
     status (getHoursStatus tz spans date timeZone options) = open_status \<or>
     status (getHoursStatus tz spans date timeZone options) = closing_soon"
proof (cases "getZonedParts tz date (normalizeTimeZone (zoneArg timeZone))")
  case (Pair dy minutes)
  show ?thesis
  proof (cases "openSpanOf (filter (\<lambda>span. day span = dy) spans) minutes")
    case None
    then have "\<not> list_ex (\<lambda>span. day span = dy \<and> contains minutes span) spans"
      by (simp add: openSpanOf_def find_filter_None)
    then have "\<not> isOpenAt tz spans date timeZone"
      by (auto simp: isOpenAt_def Pair list_ex_iff)
    moreover from getHoursStatus_not_found [OF Pair None, of options]
    have "status (getHoursStatus tz spans date timeZone options) \<noteq> open_status \<and>
          status (getHoursStatus tz spans date timeZone options) \<noteq> closing_soon"
      by auto
    ultimately show ?thesis by blast
  next
    case (Some s)
    from openSpanOf_Some [OF Some] have "s \<in> set spans" "day s = dy" "contains minutes s"
      by auto
    then have "isOpenAt tz spans date timeZone"
      by (auto simp: isOpenAt_def Pair list_ex_iff)
    moreover have "status (getHoursStatus tz spans date timeZone options) = open_status \<or>
       status (getHoursStatus tz spans date timeZone options) = closing_soon"
      unfolding getHoursStatus_found [OF Pair Some] by (rule status_whenOpen)
    ultimately show ?thesis by blast
  qed
qed

subsection \<open>The overnight split\<close>

lemma normalizeSpan_split:
  "gt (toMinutes (open span)) (toMinutes (close span)) \<Longrightarrow>
   normalizeSpan span =
     [\<lparr>day = day span, open = open span, close = js ''24:00''\<rparr>,
      \<lparr>day = (day span + 1) mod 7, open = js ''00:00'', close = close span\<rparr>]"
  unfolding normalizeSpan_def Let_def gt_def
  by (cases "toMinutes (open span)"; cases "toMinutes (close span)") auto

lemma wrap_cover:
  assumes "d < 7"
  shows "(\<lambda>m. int d * 1440 + m) ` {1320..<1440} \<union> (\<lambda>m. int ((d + 1) mod 7) * 1440 + m) ` {0..<120}
         = wrapSpan d 1320 120"
proof -
  let ?f = "\<lambda>t. (int d * 1440 + t) mod 10080"
  have split: "{1320..<1560} = {1320..<1440} \<union> {1440..<(1560::int)}"
    by auto
  have shift: "{1440..<1560} = (\<lambda>m. 1440 + m) ` {0..<(120::int)}"
    by (auto simp: image_iff)
  have a: "?f ` {1320..<1440} = (\<lambda>m. int d * 1440 + m) ` {1320..<1440}"
    using assms by (intro image_cong) auto
  have b: "(int d * 1440 + (1440 + m)) mod 10080 = int ((d + 1) mod 7) * 1440 + m"
    if "m \<in> {0..<120}" for m
  proof (cases "d = 6")
    case True
    then show ?thesis using that by simp
  next
    case False
    with assms have "d < 6" by simp
    then have "(d + 1) mod 7 = d + 1" by simp
    moreover have "(int d * 1440 + (1440 + m)) mod 10080 = int d * 1440 + (1440 + m)"
      using \<open>d < 6\<close> that by auto
    ultimately show ?thesis by simp
  qed
  have "?f ` {1440..<1560} = (\<lambda>m. ?f (1440 + m)) ` {0..<120}"
    by (subst shift) (rule image_image)
  also have "\<dots> = (\<lambda>m. int ((d + 1) mod 7) * 1440 + m) ` {0..<120}"
    using b by (intro image_cong) auto
  finally have c: "?f ` {1440..<1560} = (\<lambda>m. int ((d + 1) mod 7) * 1440 + m) ` {0..<120}" .
  have "wrapSpan d 1320 120 = ?f ` {1320..<1440} \<union> ?f ` {1440..<1560}"
    by (simp add: wrapSpan_def split image_Un)
  then show ?thesis unfolding a c by simp
qed

lemma overnight_2200_0200:
  "normalizeSpan \<lparr>day = d, open = js ''22:00'', close = js ''02:00''\<rparr> =
     [\<lparr>day = d, open = js ''22:00'', close = js ''24:00''\<rparr>,
      \<lparr>day = (d + 1) mod 7, open = js ''00:00'', close = js ''02:00''\<rparr>]"
  using normalizeSpan_split [of "\<lparr>day = d, open = js ''22:00'', close = js ''02:00''\<rparr>"]
  by (simp add: gt_def toMinutes_2200 toMinutes_0200)

text \<open>
  C5. A tentative span whose open minute is greater than its close minute is split into
  exactly two intervals: the one of its day from its open to 24:00, and the one of the
  next day \<open>(day + 1) mod 7\<close> from 00:00 to its close. In particular 22:00 to 02:00 on day
  \<open>d\<close> gives 22:00 to 24:00 on \<open>d\<close> and 00:00 to 02:00 on \<open>(d + 1) mod 7\<close>, and for a weekday
  \<open>d\<close> the minutes of the week these two cover are those of the wraparound span from
  minute 1320 of day \<open>d\<close> to minute 120 of the following day.
\<close>

theorem overnight_split:
  "(gt (toMinutes (open span)) (toMinutes (close span)) \<longrightarrow>
      normalizeSpan span =
        [\<lparr>day = day span, open = open span, close = js ''24:00''\<rparr>,
         \<lparr>day = (day span + 1) mod 7, open = js ''00:00'', close = close span\<rparr>]) \<and>
   normalizeSpan \<lparr>day = d, open = js ''22:00'', close = js ''02:00''\<rparr> =
     [\<lparr>day = d, open = js ''22:00'', close = js ''24:00''\<rparr>,
      \<lparr>day = (d + 1) mod 7, open = js ''00:00'', close = js ''02:00''\<rparr>] \<and>
   (d < 7 \<longrightarrow>
      \<Union> (set (map weekMinutes
                   (normalizeSpan \<lparr>day = d, open = js ''22:00'', close = js ''02:00''\<rparr>))) =
        wrapSpan d 1320 120)"
proof (intro conjI impI)
  assume "d < 7"
  then show "\<Union> (set (map weekMinutes
                   (normalizeSpan \<lparr>day = d, open = js ''22:00'', close = js ''02:00''\<rparr>))) =
        wrapSpan d 1320 120"
    unfolding overnight_2200_0200 
    by (simp add: weekMinutes_def toMinutes_2200 toMinutes_2400 toMinutes_0000 toMinutes_0200
        wrap_cover [symmetric])
qed (auto simp: normalizeSpan_split overnight_2200_0200)

theorem overnight_split_witness:
  "gt (toMinutes (open \<lparr>day = 6, open = js ''22:00'', close = js ''02:00''\<rparr>))
      (toMinutes (close \<lparr>day = 6, open = js ''22:00'', close = js ''02:00''\<rparr>)) \<and>
   (6::nat) < 7 \<and>
   normalizeSpan \<lparr>day = 6, open = js ''22:00'', close = js ''02:00''\<rparr> =
     [\<lparr>day = 6, open = js ''22:00'', close = js ''24:00''\<rparr>,
      \<lparr>day = 0, open = js ''00:00'', close = js ''02:00''\<rparr>] \<and>
   \<Union> (set (map weekMinutes
                (normalizeSpan \<lparr>day = 6, open = js ''22:00'', close = js ''02:00''\<rparr>))) =
     wrapSpan 6 1320 120"
proof -
  have h: "gt (toMinutes (open \<lparr>day = 6, open = js ''22:00'', close = js ''02:00''\<rparr>))
      (toMinutes (close \<lparr>day = 6, open = js ''22:00'', close = js ''02:00''\<rparr>))"
    by (simp add: gt_def toMinutes_2200 toMinutes_0200)
  have d: "(6::nat) < 7" by simp
  note t = overnight_split [of "\<lparr>day = 6, open = js ''22:00'', close = js ''02:00''\<rparr>" 6]
  from t have a: "normalizeSpan \<lparr>day = 6, open = js ''22:00'', close = js ''02:00''\<rparr> =
     [\<lparr>day = 6, open = js ''22:00'', close = js ''24:00''\<rparr>,
      \<lparr>day = 0, open = js ''00:00'', close = js ''02:00''\<rparr>]"
    by simp
  from t d have b: "\<Union> (set (map weekMinutes
                (normalizeSpan \<lparr>day = 6, open = js ''22:00'', close = js ''02:00''\<rparr>))) =
     wrapSpan 6 1320 120"
    by blast
  from h d a b show ?thesis by blast
qed

subsection \<open>The closing-soon threshold\<close>

lemma whenOpen_not_all_day:
  assumes "\<not> (open s = js ''00:00'' \<and> close s = js ''24:00'')"
  shows "whenOpen spans dy minutes cs s =
     \<lparr>status = (if le (untilCloseOf spans dy minutes s) cs then closing_soon else open_status),
      minutesUntilClose = Some (untilCloseOf spans dy minutes s), minutesUntilOpen = None\<rparr>"
  unfolding whenOpen_def Let_def using assms by auto

text \<open>
  C6. With \<open>closingSoonMinutes = 90\<close>, when the query minute lies in a span that is not the
  all-day span, the result carries \<open>minutesUntilClose\<close> and its status is \<open>closing_soon\<close>
  when that number is at most 90 and \<open>open\<close> otherwise: 90 gives \<open>closing_soon\<close>, 91 gives
  \<open>open\<close>.
\<close>

theorem closing_soon_inclusive:
  assumes zp: "getZonedParts tz date (normalizeTimeZone (zoneArg timeZone)) = (dy, minutes)"
    and s: "openSpanOf (filter (\<lambda>span. day span = dy) spans) minutes = Some s"
    and nad: "\<not> (open s = js ''00:00'' \<and> close s = js ''24:00'')"
    and cs: "closingSoonMinutes options = Some (Num 90)"
  shows "(\<exists>u. minutesUntilClose (getHoursStatus tz spans date timeZone options) = Some u \<and>
            status (getHoursStatus tz spans date timeZone options) =
              (if le u (Num 90) then closing_soon else open_status)) \<and>
         (minutesUntilClose (getHoursStatus tz spans date timeZone options) = Some (Num 90) \<longrightarrow>
            status (getHoursStatus tz spans date timeZone options) = closing_soon) \<and>
         (minutesUntilClose (getHoursStatus tz spans date timeZone options) = Some (Num 91) \<longrightarrow>
            status (getHoursStatus tz spans date timeZone options) = open_status)"
  unfolding getHoursStatus_found [OF zp s] whenOpen_not_all_day [OF nad] cs
  by auto

lemma toMinutes_0900: "toMinutes (js ''09:00'') = Num 540"
  by code_simp

lemma toMinutes_1700: "toMinutes (js ''17:00'') = Num 1020"
  by code_simp

lemma mon_9_17_not_all_day:
  "\<not> (open \<lparr>day = 1, open = js ''09:00'', close = js ''17:00''\<rparr> = js ''00:00'' \<and>
      close \<lparr>day = 1, open = js ''09:00'', close = js ''17:00''\<rparr> = js ''24:00'')"
  by code_simp

lemma until_close_1700:
  assumes "close s = js ''17:00''"
  shows "untilCloseOf spans dy minutes s = Num (1020 - minutes)"
proof -
  have "js ''17:00'' \<noteq> js ''24:00''" by code_simp
  then show ?thesis by (simp add: untilCloseOf_def toMinutes_1700 assms)
qed

theorem closing_soon_inclusive_witness:
  "status (getHoursStatus (atLocal 1 15 30) [\<lparr>day = 1, open = js ''09:00'', close = js ''17:00''\<rparr>]
      () None \<lparr>closingSoonMinutes = Some (Num 90), openingSoonMinutes = None\<rparr>) = closing_soon \<and>
   status (getHoursStatus (atLocal 1 15 29) [\<lparr>day = 1, open = js ''09:00'', close = js ''17:00''\<rparr>]
      () None \<lparr>closingSoonMinutes = Some (Num 90), openingSoonMinutes = None\<rparr>) = open_status"
proof -
  let ?sp = "\<lparr>day = 1, open = js ''09:00'', close = js ''17:00''\<rparr>"
  let ?op = "\<lparr>closingSoonMinutes = Some (Num 90), openingSoonMinutes = None\<rparr>"
  have z1: "getZonedParts (atLocal 1 15 30) () (normalizeTimeZone (zoneArg None)) = (1, 930)"
    by (simp add: atLocal_parts)
  have z2: "getZonedParts (atLocal 1 15 29) () (normalizeTimeZone (zoneArg None)) = (1, 929)"
    by (simp add: atLocal_parts)
  have s1: "openSpanOf (filter (\<lambda>span. day span = 1) [?sp]) 930 = Some ?sp"
    by (simp add: openSpanOf_def contains_def ge_def toMinutes_0900 toMinutes_1700)
  have s2: "openSpanOf (filter (\<lambda>span. day span = 1) [?sp]) 929 = Some ?sp"
    by (simp add: openSpanOf_def contains_def ge_def toMinutes_0900 toMinutes_1700)
  have c: "closingSoonMinutes ?op = Some (Num 90)" by simp
  have m1: "minutesUntilClose (getHoursStatus (atLocal 1 15 30) [?sp] () None ?op) = Some (Num 90)"
    unfolding getHoursStatus_found [OF z1 s1] whenOpen_not_all_day [OF mon_9_17_not_all_day]
    by (simp add: until_close_1700)
  have m2: "minutesUntilClose (getHoursStatus (atLocal 1 15 29) [?sp] () None ?op) = Some (Num 91)"
    unfolding getHoursStatus_found [OF z2 s2] whenOpen_not_all_day [OF mon_9_17_not_all_day]
    by (simp add: until_close_1700)
  from closing_soon_inclusive [OF z1 s1 mon_9_17_not_all_day c] m1
  have "status (getHoursStatus (atLocal 1 15 30) [?sp] () None ?op) = closing_soon" by blast
  moreover from closing_soon_inclusive [OF z2 s2 mon_9_17_not_all_day c] m2
  have "status (getHoursStatus (atLocal 1 15 29) [?sp] () None ?op) = open_status" by blast
  ultimately show ?thesis by simp
qed

subsection \<open>Time zone aliases\<close>

lemma trim_no_space:
  assumes "u \<noteq> []" "\<not> isSpace (hd u)" "\<not> isSpace (last u)"
  shows "trim u = u"
proof -
  from assms have "dropWhile isSpace u = u" by (cases u) auto
  moreover from assms have "dropWhile isSpace (rev u) = rev u"
    by (cases "rev u") (auto simp: hd_rev [symmetric])
  ultimately show ?thesis by (simp add: trim_def)
qed

text \<open>
  C7 (as the code has it). \<open>normalizeTimeZone\<close> trims the white space around its input
  first. An absent input, an empty one and one that is empty after trimming give the New
  York identifier; so does every input whose trimmed text is one of the five aliases; every
  other input gives its trimmed text, which is the input itself when it neither starts nor
  ends with white space.
\<close>

theorem normalizeTimeZone_trimmed:
  "normalizeTimeZone None = NYC_TIMEZONE \<and>
   normalizeTimeZone (Some (js ''Eastern Standard Time'')) = NYC_TIMEZONE \<and>
   normalizeTimeZone (Some (js ''Eastern Daylight Time'')) = NYC_TIMEZONE \<and>
   normalizeTimeZone (Some (js ''EST'')) = NYC_TIMEZONE \<and>
   normalizeTimeZone (Some (js ''EDT'')) = NYC_TIMEZONE \<and>
   normalizeTimeZone (Some (js ''US/Eastern'')) = NYC_TIMEZONE \<and>
   (trim a \<in> set aliases \<longrightarrow> normalizeTimeZone (Some a) = NYC_TIMEZONE) \<and>
   (trim e = [] \<longrightarrow> normalizeTimeZone (Some e) = NYC_TIMEZONE) \<and>
   (trim s \<noteq> [] \<and> trim s \<notin> set aliases \<longrightarrow> normalizeTimeZone (Some s) = trim s) \<and>
   (u \<noteq> [] \<and> \<not> isSpace (hd u) \<and> \<not> isSpace (last u) \<and> u \<notin> set aliases \<longrightarrow>
      normalizeTimeZone (Some u) = u)"
proof (intro conjI impI)
  show "normalizeTimeZone (Some (js ''Eastern Standard Time'')) = NYC_TIMEZONE" by code_simp
  show "normalizeTimeZone (Some (js ''Eastern Daylight Time'')) = NYC_TIMEZONE" by code_simp
  show "normalizeTimeZone (Some (js ''EST'')) = NYC_TIMEZONE" by code_simp
  show "normalizeTimeZone (Some (js ''EDT'')) = NYC_TIMEZONE" by code_simp
  show "normalizeTimeZone (Some (js ''US/Eastern'')) = NYC_TIMEZONE" by code_simp
next
  assume "u \<noteq> [] \<and> \<not> isSpace (hd u) \<and> \<not> isSpace (last u) \<and> u \<notin> set aliases"
  then show "normalizeTimeZone (Some u) = u"
    by (simp add: normalizeTimeZone_def trim_no_space)
qed (auto simp: normalizeTimeZone_def Let_def trim_def)

theorem normalizeTimeZone_trimmed_witness:
  "trim (js '' EST '') \<in> set aliases \<and> normalizeTimeZone (Some (js '' EST '')) = NYC_TIMEZONE \<and>
   trim (js ''   '') = [] \<and> normalizeTimeZone (Some (js ''   '')) = NYC_TIMEZONE \<and>
   trim (js '' UTC'') \<noteq> [] \<and> trim (js '' UTC'') \<notin> set aliases \<and>
   normalizeTimeZone (Some (js '' UTC'')) = js ''UTC'' \<and>
   js ''Europe/Paris'' \<noteq> [] \<and> \<not> isSpace (hd (js ''Europe/Paris'')) \<and>
   \<not> isSpace (last (js ''Europe/Paris'')) \<and> js ''Europe/Paris'' \<notin> set aliases \<and>
   normalizeTimeZone (Some (js ''Europe/Paris'')) = js ''Europe/Paris''"
proof -
  have h1: "trim (js '' EST '') \<in> set aliases" by code_simp
  have h2: "trim (js ''   '') = []" by code_simp
  have h3: "trim (js '' UTC'') \<noteq> [] \<and> trim (js '' UTC'') \<notin> set aliases" by code_simp
  have t3: "trim (js '' UTC'') = js ''UTC''" by code_simp
  have h4: "js ''Europe/Paris'' \<noteq> [] \<and> \<not> isSpace (hd (js ''Europe/Paris'')) \<and>
   \<not> isSpace (last (js ''Europe/Paris'')) \<and> js ''Europe/Paris'' \<notin> set aliases" by code_simp
  show ?thesis
    using h1 h2 h3 h4 t3
      normalizeTimeZone_trimmed [of "js '' EST ''" "js ''   ''" "js '' UTC''" "js ''Europe/Paris''"]
    by simp
qed

text \<open>
  C7 as the specification states it, refuted: the input \<open>" UTC"\<close> is not empty and not an
  alias, and it is not returned unchanged.
\<close>

theorem normalizeTimeZone_changes_input:
  "js '' UTC'' \<noteq> [] \<and> js '' UTC'' \<notin> set aliases \<and>
   normalizeTimeZone (Some (js '' UTC'')) \<noteq> js '' UTC''"
  by code_simp

subsection \<open>The clock-time parser\<close>

lemma canon_58 [simp]: "canon c = 58 \<longleftrightarrow> c = 58"
  by (auto simp: canon_def)

lemma js_am: "js ''am'' = [97, 109]" by (simp add: js_def)
lemma js_pm: "js ''pm'' = [112, 109]" by (simp add: js_def)

lemma timeRx_K1: "timeRx = Seq Bol K1"
  by (simp add: timeRx_def K1_def K2_def K3_def)

lemma canon_lower:
  "\<not> (65 \<le> c \<and> c \<le> 90) \<Longrightarrow> canon c = 65 \<longleftrightarrow> c = 97"
  "\<not> (65 \<le> c \<and> c \<le> 90) \<Longrightarrow> canon c = 77 \<longleftrightarrow> c = 109"
  "\<not> (65 \<le> c \<and> c \<le> 90) \<Longrightarrow> canon c = 80 \<longleftrightarrow> c = 112"
  by (auto simp: canon_def)

lemma ms_K3:
  assumes "noUpper r"
  shows "ms True K3 (p, r, g) =
     (case meridiemPart r of
        Some (Some x) \<Rightarrow> [(p + 2, [], (3, x) # g)]
      | Some None \<Rightarrow> [(p, [], g)]
      | None \<Rightarrow> [])"
  using assms
  by (auto simp: K3_def opt_def lit_def meridiemPart_def js_am js_pm noUpper_def canon_def
      split: list.splits)


lemma ms_K3_colon: "ms True K3 (p, 58 # r, g) = []"
  by (simp add: K3_def opt_def lit_def canon_def)

lemma ms_K3_digit: "isDigit b \<Longrightarrow> ms True K3 (p, b # r, g) = []"
  by (auto simp: K3_def opt_def lit_def canon_def isDigit_def)

lemma noUpper_Cons [simp]: "noUpper (c # cs) \<longleftrightarrow> \<not> (65 \<le> c \<and> c \<le> 90) \<and> noUpper cs"
  by (simp add: noUpper_def)

lemma noUpper_Nil [simp]: "noUpper []"
  by (simp add: noUpper_def)

lemma Suc3_eq_add_3: "Suc (Suc (Suc p)) = p + 3"
  by simp

lemma ms_K2:
  "ms True K2 (p, r, g) =
     (case minutePart r of
        (Some m, r') \<Rightarrow> ms True K3 (p + 3, r', (2, m) # g)
      | (None, r') \<Rightarrow> ms True K3 (p, r, g))"
proof (cases "\<exists>a b r'. r = 58 # a # b # r' \<and> isDigit a \<and> isDigit b")
  case True
  then obtain a b r' where r: "r = 58 # a # b # r'" "isDigit a" "isDigit b" by blast
  then show ?thesis
    by (simp add: K2_def opt_def lit_def minutePart_def ms_K3_colon Suc3_eq_add_3)
next
  case False
  then have "minutePart r = (None, r)"
    by (auto simp: minutePart_def split: list.splits)
  moreover from False
  have "ms True (opt (Seq (lit '':'') (Grp 2 (Seq (Atom Digit) (Atom Digit))))) (p, r, g) = [(p, r, g)]"
    by (auto simp: opt_def lit_def canon_def split: list.splits if_splits)
  ultimately show ?thesis by (simp add: K2_def)
qed

lemma ms_K2_digit: "isDigit b \<Longrightarrow> ms True K2 (p, b # r, g) = []"
  by (auto simp: ms_K2 minutePart_def ms_K3_digit isDigit_def split: list.splits)

lemma ms_K1:
  "ms True K1 (p, s, g) =
     (case hourPart s of
        None \<Rightarrow> []
      | Some (h, r) \<Rightarrow> ms True K2 (p + length h, r, (1, h) # g))"
  by (auto simp: K1_def opt_def hourPart_def ms_K2_digit split: list.splits)

lemma execFrom_hit:
  "ms ic re (p, r, []) = (e, r', g) # rest \<Longrightarrow>
   execFrom ic re p r = Some \<lparr>index = p, whole = take (e - p) r, groups = g\<rparr>"
  by (simp add: execFrom.simps)

lemma execFrom_miss_Nil:
  "ms ic re (p, [], []) = [] \<Longrightarrow> execFrom ic re p [] = None"
  by (simp add: execFrom.simps)

lemma execFrom_miss_Cons:
  "ms ic re (p, c # cs, []) = [] \<Longrightarrow> execFrom ic re p (c # cs) = execFrom ic re (p + 1) cs"
  by (simp add: execFrom.simps)

lemma ms_timeRx_later: "p > 0 \<Longrightarrow> ms True timeRx (p, s, g) = []"
  by (simp add: timeRx_K1)

lemma execFrom_timeRx_later: "p > 0 \<Longrightarrow> execFrom True timeRx p s = None"
  by (induction s arbitrary: p)
    (simp_all add: execFrom_miss_Nil execFrom_miss_Cons ms_timeRx_later)

lemma execFrom_timeRx_miss:
  "ms True timeRx (0, s, []) = [] \<Longrightarrow> execFrom True timeRx 0 s = None"
  by (cases s) (simp_all add: execFrom_miss_Nil execFrom_miss_Cons execFrom_timeRx_later)

lemma hourPart_length:
  "hourPart s = Some (h, r) \<Longrightarrow> s = h @ r \<and> (length h = 1 \<or> length h = 2) \<and> list_all isDigit h"
  by (auto simp: hourPart_def split: list.splits if_splits)

lemma hourPart_noUpper: "hourPart s = Some (h, r) \<Longrightarrow> noUpper s \<Longrightarrow> noUpper r"
  by (auto simp: hourPart_def split: list.splits if_splits)

lemma minutePart_shape:
  "minutePart r = (m, r') \<Longrightarrow>
     (m = None \<and> r' = r) \<or> (\<exists>a b. m = Some [a, b] \<and> isDigit a \<and> isDigit b \<and> r = 58 # a # b # r')"
  by (auto simp: minutePart_def split: list.splits if_splits)

lemma minutePart_noUpper: "minutePart r = (m, r') \<Longrightarrow> noUpper r \<Longrightarrow> noUpper r'"
  by (auto simp: minutePart_def split: list.splits if_splits)

text \<open>What \<open>exec\<close> reports on a text without upper-case letters.\<close>

lemma exec_timeRx:
  assumes "noUpper s"
  shows "exec True timeRx s =
     (case clockShape s of
        None \<Rightarrow> None
      | Some (h, m, mer) \<Rightarrow>
          Some \<lparr>index = 0, whole = s,
                groups = (case mer of None \<Rightarrow> [] | Some x \<Rightarrow> [(3, x)]) @
                         (case m of None \<Rightarrow> [] | Some x \<Rightarrow> [(2, x)]) @ [(1, h)]\<rparr>)"
proof (cases "hourPart s")
  case None
  then have "ms True timeRx (0, s, []) = []" by (simp add: timeRx_K1 ms_K1)
  then have "execFrom True timeRx 0 s = None"
    by (rule execFrom_timeRx_miss)
  then show ?thesis using None by (simp add: exec_def clockShape_def)
next
  case (Some hr)
  obtain h r where hr: "hr = (h, r)" by (cases hr)
  obtain m r' where mp: "minutePart r = (m, r')" by (cases "minutePart r")
  from Some hr have hp: "hourPart s = Some (h, r)" by simp
  note hl = hourPart_length [OF hp]
  from hourPart_noUpper [OF hp assms] have nr: "noUpper r" .
  from minutePart_noUpper [OF mp nr] have nr': "noUpper r'" .
  let ?g2 = "(case m of None \<Rightarrow> [] | Some x \<Rightarrow> [(2, x)]) @ [(1, h)]"
  let ?p2 = "length h + (case m of None \<Rightarrow> 0 | Some x \<Rightarrow> 3)"
  have k: "ms True timeRx (0, s, []) = ms True K3 (?p2, r', ?g2)"
    using hp mp minutePart_shape [OF mp] by (auto simp: timeRx_K1 ms_K1 ms_K2 split: option.splits)
  have len: "length s = ?p2 + length r'"
    using hl minutePart_shape [OF mp] by auto
  show ?thesis
  proof (cases "meridiemPart r'")
    case None
    then have "ms True timeRx (0, s, []) = []" by (simp add: k ms_K3 [OF nr'])
    then have "execFrom True timeRx 0 s = None"
      by (rule execFrom_timeRx_miss)
    then show ?thesis using None hp mp by (simp add: exec_def clockShape_def)
  next
    case (Some mer)
    then have lr: "length r' = (case mer of None \<Rightarrow> 0 | Some x \<Rightarrow> 2)"
      by (auto simp: meridiemPart_def js_am js_pm split: if_splits)
    from Some have "ms True timeRx (0, s, []) =
        [(length s, [], (case mer of None \<Rightarrow> [] | Some x \<Rightarrow> [(3, x)]) @ ?g2)]"
      by (cases mer) (simp_all add: k ms_K3 [OF nr'] len lr)
    then have "execFrom True timeRx 0 s =
        Some \<lparr>index = 0, whole = s,
              groups = (case mer of None \<Rightarrow> [] | Some x \<Rightarrow> [(3, x)]) @ ?g2\<rparr>"
      by (simp add: execFrom_hit)
    then show ?thesis using Some hp mp by (simp add: exec_def clockShape_def)
  qed
qed


lemma noUpper_lowerUnit: "noUpper (lowerUnit c)"
  by (simp add: lowerUnit_def)

lemma noUpper_append [simp]: "noUpper (xs @ ys) \<longleftrightarrow> noUpper xs \<and> noUpper ys"
  by (simp add: noUpper_def)

lemma noUpper_toLowerCase: "noUpper (toLowerCase v)"
  by (induction v) (simp_all add: toLowerCase_def noUpper_lowerUnit)

lemma noUpper_filter: "noUpper s \<Longrightarrow> noUpper (filter P s)"
  by (simp add: noUpper_def list_all_iff)

lemma noUpper_cleanText: "noUpper (cleanText v)"
  by (simp add: cleanText_def noUpper_filter noUpper_toLowerCase)

lemma digit_not_space: "isDigit c \<Longrightarrow> \<not> isSpace c"
  by (auto simp: isDigit_def isSpace_def)

lemma Number_digits:
  assumes "list_all isDigit h" "h \<noteq> []"
  shows "Number h = Num (digitsValue h 0)"
proof -
  from assms have "isDigit (hd h)" "isDigit (last h)"
    by (auto simp: list_all_iff)
  then have "trim h = h"
    using assms(2) by (intro trim_no_space) (auto dest: digit_not_space)
  then show ?thesis using assms by (simp add: Number_def)
qed

lemma digitsValue_nonneg:
  "list_all isDigit h \<Longrightarrow> 0 \<le> acc \<Longrightarrow> 0 \<le> digitsValue h acc"
  by (induction h arbitrary: acc) (auto simp: isDigit_def)

lemma meridiemPart_cases:
  "meridiemPart r = Some mer \<Longrightarrow> mer = None \<or> mer = Some (js ''am'') \<or> mer = Some (js ''pm'')"
  by (auto simp: meridiemPart_def split: if_splits)

lemma clockShape_parts:
  assumes "clockShape s = Some (h, m, mer)"
  shows "list_all isDigit h \<and> h \<noteq> [] \<and>
         (m = None \<or> (\<exists>a b. m = Some [a, b] \<and> isDigit a \<and> isDigit b)) \<and>
         (mer = None \<or> mer = Some (js ''am'') \<or> mer = Some (js ''pm''))"
proof -
  from assms obtain r r' where hp: "hourPart s = Some (h, r)" and mp: "minutePart r = (m, r')"
    and me: "meridiemPart r' = Some mer"
    by (auto simp: clockShape_def split: option.splits prod.splits)
  from hourPart_length [OF hp] have "list_all isDigit h \<and> h \<noteq> []" by auto
  moreover from minutePart_shape [OF mp]
  have "m = None \<or> (\<exists>a b. m = Some [a, b] \<and> isDigit a \<and> isDigit b)" by auto
  ultimately show ?thesis using meridiemPart_cases [OF me] by simp
qed

lemma am_not_pm: "js ''am'' \<noteq> js ''pm''" "js ''am'' \<noteq> []" "js ''pm'' \<noteq> []"
  by (simp_all add: js_def)

text \<open>The body of \<open>parseTimeTo24h\<close> after a successful match, on numbers.\<close>

lemma after_match:
  assumes g1: "group mt 1 = Some h" and g2: "group mt 2 = m" and g3: "group mt 3 = mer"
    and h: "list_all isDigit h" "h \<noteq> []"
    and m: "m = None \<or> (\<exists>a b. m = Some [a, b] \<and> isDigit a \<and> isDigit b)"
    and mer: "mer = None \<or> mer = Some (js ''am'') \<or> mer = Some (js ''pm'')"
    and ex: "exec True timeRx (cleanText v) = Some mt"
  shows "parseTimeTo24h v =
           clockRule (digitsValue h 0) (case m of None \<Rightarrow> 0 | Some x \<Rightarrow> digitsValue x 0) mer"
proof -
  define hv where "hv = digitsValue h 0"
  define mv where "mv = (case m of None \<Rightarrow> 0 | Some x \<Rightarrow> digitsValue x 0)"
  have hn: "Number h = Num hv" unfolding hv_def by (rule Number_digits [OF h])
  have h0: "0 \<le> hv" unfolding hv_def using h by (simp add: digitsValue_nonneg)
  have mn: "(case m of Some s \<Rightarrow> if s \<noteq> [] then Number s else Num 0 | None \<Rightarrow> Num 0) = Num mv"
    using m unfolding mv_def by (auto simp: Number_digits)
  have m0: "0 \<le> mv" using m unfolding mv_def by (auto simp: isDigit_def)
  have "parseTimeTo24h v = clockRule hv mv mer"
    unfolding parseTimeTo24h_def Let_def cleanText_def [symmetric] ex option.case g1 g2 g3 hn mn
    using mer h0 m0
    by (auto simp: clockRule_def clockText_def truthy_def gt_def am_not_pm)
  then show ?thesis by (simp add: hv_def mv_def)
qed

lemma parseTimeTo24h_by_shape:
  "parseTimeTo24h v =
     (case clockShape (cleanText v) of
        None \<Rightarrow> None
      | Some (h, m, mer) \<Rightarrow>
          clockRule (digitsValue h 0) (case m of None \<Rightarrow> 0 | Some x \<Rightarrow> digitsValue x 0) mer)"
proof (cases "clockShape (cleanText v)")
  case None
  then have "exec True timeRx (cleanText v) = None"
    by (simp add: exec_timeRx [OF noUpper_cleanText])
  then show ?thesis using None by (simp add: parseTimeTo24h_def cleanText_def)
next
  case (Some t)
  obtain h m mer where t: "t = (h, m, mer)" by (cases t)
  let ?mt = "\<lparr>index = 0, whole = cleanText v,
       groups = (case mer of None \<Rightarrow> [] | Some x \<Rightarrow> [(3, x)]) @
                (case m of None \<Rightarrow> [] | Some x \<Rightarrow> [(2, x)]) @ [(1, h)]\<rparr>"
  from Some t have cs: "clockShape (cleanText v) = Some (h, m, mer)" by simp
  then have ex: "exec True timeRx (cleanText v) = Some ?mt"
    by (simp add: exec_timeRx [OF noUpper_cleanText])
  note parts = clockShape_parts [OF cs]
  have g1: "group ?mt 1 = Some h" by (cases mer; cases m) (simp_all add: group_def)
  have g2: "group ?mt 2 = m" by (cases mer; cases m) (simp_all add: group_def)
  have g3: "group ?mt 3 = mer" by (cases mer; cases m) (simp_all add: group_def)
  from parts have p1: "list_all isDigit h" and p2: "h \<noteq> []"
    and p3: "m = None \<or> (\<exists>a b. m = Some [a, b] \<and> isDigit a \<and> isDigit b)"
    and p4: "mer = None \<or> mer = Some (js ''am'') \<or> mer = Some (js ''pm'')"
    by blast+
  from after_match [OF g1 g2 g3 p1 p2 p3 p4 ex]
  show ?thesis using cs by simp
qed

text \<open>
  C8. For every input, \<open>parseTimeTo24h\<close> is null unless the cleaned text has the shape above,
  and then follows the rules: a minute above 59 is rejected; with a suffix the hour must
  be 1 to 12, 12am is hour 0, 12pm is hour 12 and any other pm hour has 12 added; without
  a suffix the hour must be 0 to 24, and hour 24 is accepted only with minute 0.
\<close>

theorem parseTimeTo24h_rules:
  "parseTimeTo24h v =
     (case clockShape (cleanText v) of
        None \<Rightarrow> None
      | Some (h, m, mer) \<Rightarrow>
          clockRule (digitsValue h 0) (case m of None \<Rightarrow> 0 | Some x \<Rightarrow> digitsValue x 0) mer)"
  by (rule parseTimeTo24h_by_shape)

theorem parseTimeTo24h_rules_witness:
  "parseTimeTo24h (js ''12am'') = Some (js ''00:00'') \<and>
   parseTimeTo24h (js ''12 PM'') = Some (js ''12:00'') \<and>
   parseTimeTo24h (js ''9:30 p.m.'') = Some (js ''21:30'') \<and>
   parseTimeTo24h (js ''13pm'') = None \<and>
   parseTimeTo24h (js ''0am'') = None \<and>
   parseTimeTo24h (js ''25'') = None \<and>
   parseTimeTo24h (js ''24:00'') = Some (js ''24:00'') \<and>
   parseTimeTo24h (js ''24:30'') = None \<and>
   parseTimeTo24h (js ''9:75'') = None"
proof -
  have e1: "(case clockShape (cleanText (js ''12am'')) of None \<Rightarrow> None
      | Some (h, m, mer) \<Rightarrow> clockRule (digitsValue h 0)
          (case m of None \<Rightarrow> 0 | Some x \<Rightarrow> digitsValue x 0) mer) = Some (js ''00:00'')"
    by code_simp
  have e2: "(case clockShape (cleanText (js ''12 PM'')) of None \<Rightarrow> None
      | Some (h, m, mer) \<Rightarrow> clockRule (digitsValue h 0)
          (case m of None \<Rightarrow> 0 | Some x \<Rightarrow> digitsValue x 0) mer) = Some (js ''12:00'')"
    by code_simp
  have e3: "(case clockShape (cleanText (js ''9:30 p.m.'')) of None \<Rightarrow> None
      | Some (h, m, mer) \<Rightarrow> clockRule (digitsValue h 0)
          (case m of None \<Rightarrow> 0 | Some x \<Rightarrow> digitsValue x 0) mer) = Some (js ''21:30'')"
    by code_simp
  have e4: "(case clockShape (cleanText (js ''13pm'')) of None \<Rightarrow> None
      | Some (h, m, mer) \<Rightarrow> clockRule (digitsValue h 0)
          (case m of None \<Rightarrow> 0 | Some x \<Rightarrow> digitsValue x 0) mer) = None"
    by code_simp
  have e5: "(case clockShape (cleanText (js ''0am'')) of None \<Rightarrow> None
      | Some (h, m, mer) \<Rightarrow> clockRule (digitsValue h 0)
          (case m of None \<Rightarrow> 0 | Some x \<Rightarrow> digitsValue x 0) mer) = None"
    by code_simp
  have e6: "(case clockShape (cleanText (js ''25'')) of None \<Rightarrow> None
      | Some (h, m, mer) \<Rightarrow> clockRule (digitsValue h 0)
          (case m of None \<Rightarrow> 0 | Some x \<Rightarrow> digitsValue x 0) mer) = None"
    by code_simp
  have e7: "(case clockShape (cleanText (js ''24:00'')) of None \<Rightarrow> None
      | Some (h, m, mer) \<Rightarrow> clockRule (digitsValue h 0)
          (case m of None \<Rightarrow> 0 | Some x \<Rightarrow> digitsValue x 0) mer) = Some (js ''24:00'')"
    by code_simp
  have e8: "(case clockShape (cleanText (js ''24:30'')) of None \<Rightarrow> None
      | Some (h, m, mer) \<Rightarrow> clockRule (digitsValue h 0)
          (case m of None \<Rightarrow> 0 | Some x \<Rightarrow> digitsValue x 0) mer) = None"
    by code_simp
  have e9: "(case clockShape (cleanText (js ''9:75'')) of None \<Rightarrow> None
      | Some (h, m, mer) \<Rightarrow> clockRule (digitsValue h 0)
          (case m of None \<Rightarrow> 0 | Some x \<Rightarrow> digitsValue x 0) mer) = None"
    by code_simp
  show ?thesis
    unfolding parseTimeTo24h_rules e1 e2 e3 e4 e5 e6 e7 e8 e9 by simp
qed

subsection \<open>What a match of a regular expression must consume\<close>

lemma many_rest:
  "(p', r', g') \<in> set (many ic a (p, r, g)) \<Longrightarrow> set r' \<subseteq> set r"
  by (induction r arbitrary: p) (auto split: if_splits)

lemma ms_rest:
  "(p', r', g') \<in> set (ms ic re (p, r, g)) \<Longrightarrow> set r' \<subseteq> set r"
proof (induction re arbitrary: p r g p' r' g')
  case (Atom a)
  then show ?case by (auto split: list.splits if_splits)
next
  case (Seq a b)
  from Seq.prems obtain p1 r1 g1 where
    1: "(p1, r1, g1) \<in> set (ms ic a (p, r, g))" and 2: "(p', r', g') \<in> set (ms ic b (p1, r1, g1))"
    by auto
  from Seq.IH(1) [OF 1] Seq.IH(2) [OF 2] show ?case by blast
next
  case (Alt a b)
  from Alt.prems have "(p', r', g') \<in> set (ms ic a (p, r, g)) \<or>
      (p', r', g') \<in> set (ms ic b (p, r, g))"
    by simp
  then show ?case using Alt.IH by blast
next
  case (Star a)
  then show ?case using many_rest by simp
next
  case (Grp i a)
  from Grp.prems obtain g0 where "(p', r', g0) \<in> set (ms ic a (p, r, g))" by auto
  from Grp.IH [OF this] show ?case .
qed (auto split: if_splits)

lemma ms_needs:
  "needs re x \<Longrightarrow> \<forall>c\<in>set r. canon c \<noteq> x \<Longrightarrow> ms True re (p, r, g) = []"
proof (induction re arbitrary: p r g)
  case (Atom a)
  then show ?case by (cases a; cases r) auto
next
  case (Seq a b)
  show ?case
  proof (cases "needs a x")
    case True
    with Seq show ?thesis by simp
  next
    case False
    with Seq.prems have nb: "needs b x" by simp
    have "ms True b st = []" if "st \<in> set (ms True a (p, r, g))" for st
    proof -
      obtain p1 r1 g1 where st: "st = (p1, r1, g1)" by (cases st)
      from ms_rest that st have "set r1 \<subseteq> set r" by blast
      with Seq.prems(2) have "\<forall>c\<in>set r1. canon c \<noteq> x" by blast
      from Seq.IH(2) [OF nb this] st show ?thesis by simp
    qed
    then show ?thesis by simp
  qed
qed auto

lemma execFrom_needs:
  "needs re x \<Longrightarrow> \<forall>c\<in>set s. canon c \<noteq> x \<Longrightarrow> execFrom True re p s = None"
  by (induction s arbitrary: p)
    (simp_all add: execFrom_miss_Nil execFrom_miss_Cons ms_needs)

lemma test_needs:
  "needs re x \<Longrightarrow> \<forall>c\<in>set s. canon c \<noteq> x \<Longrightarrow> \<not> test True re s"
  by (simp add: test_def exec_def execFrom_needs)

lemma needs_closed: "needs closedRx 67"
  by (simp add: closedRx_def lit_def canon_def)

lemma needs_hours24: "needs hours24Rx 79" "needs hours24Rx 82"
  by (simp_all add: hours24Rx_def lit_def canon_def)

lemma needs_open24: "needs open24Rx 80"
  by (simp add: open24Rx_def lit_def canon_def)

text \<open>The first digit.\<close>

lemma execFrom_digit:
  "execFrom False (Atom Digit) p s =
     (if list_ex isDigit s
      then Some \<lparr>index = p + length (takeWhile (\<lambda>c. \<not> isDigit c) s),
                  whole = [hd (dropWhile (\<lambda>c. \<not> isDigit c) s)], groups = []\<rparr>
      else None)"
proof (induction s arbitrary: p)
  case Nil
  show ?case by (simp add: execFrom_miss_Nil)
next
  case (Cons a s)
  show ?case
  proof (cases "isDigit a")
    case True
    then have "ms False (Atom Digit) (p, a # s, []) = [(p + 1, s, [])]" by simp
    from execFrom_hit [OF this] True show ?thesis by simp
  next
    case False
    then have "ms False (Atom Digit) (p, a # s, []) = []" by simp
    from execFrom_miss_Cons [OF this] have "execFrom False (Atom Digit) p (a # s) =
        execFrom False (Atom Digit) (p + 1) s" .
    then show ?thesis using False by (simp add: Cons.IH)
  qed
qed

lemma normalizeDash_digit: "isDigit (if c = 8211 \<or> c = 8212 then 45 else c) \<longleftrightarrow> isDigit c"
  by (auto simp: isDigit_def)

lemma takeWhile_normalizeDash:
  "length (takeWhile (\<lambda>c. \<not> isDigit c) (normalizeDash s)) = length (takeWhile (\<lambda>c. \<not> isDigit c) s)"
  by (induction s) (auto simp: normalizeDash_def isDigit_def)

lemma list_ex_normalizeDash: "list_ex isDigit (normalizeDash s) \<longleftrightarrow> list_ex isDigit s"
  by (induction s) (auto simp: normalizeDash_def isDigit_def)

lemma timeIndex_first_digit:
  "timeIndex line =
     (if list_ex isDigit line then int (length (takeWhile (\<lambda>c. \<not> isDigit c) line)) else - 1)"
  by (simp add: timeIndex_def search_def exec_def execFrom_digit takeWhile_normalizeDash
      list_ex_normalizeDash)

lemma daysPart_before_digit:
  "daysPart line =
     (if takeWhile (\<lambda>c. \<not> isDigit c) line = [] then line
      else takeWhile (\<lambda>c. \<not> isDigit c) line)"
proof (cases "list_ex isDigit line")
  case True
  have "take (length (takeWhile P line)) line = takeWhile P line" for P
    by (induction line) auto
  then show ?thesis using True by (simp add: daysPart_def timeIndex_first_digit)
next
  case False
  then have tw: "takeWhile (\<lambda>c. \<not> isDigit c) line = line"
    by (induction line) auto
  show ?thesis using False by (simp add: daysPart_def timeIndex_first_digit tw)
qed


lemma digit_amatch_chr:
  "isDigit x \<Longrightarrow> \<not> isDigit (canon k) \<Longrightarrow> amatch True (Chr k) x = False"
  by (auto simp: isDigit_def canon_def split: if_splits)

lemma ms_timeRange_clock:
  assumes "isDigit a" "isDigit b" "isDigit c" "isDigit d"
    and "isDigit e" "isDigit f" "isDigit g" "isDigit h"
  shows "\<exists>rest. ms True timeRangeRx (p, [a, b, 58, c, d, 32, 45, 32, e, f, 58, g, h], []) =
           (p + 13, [], [(2, [e, f, 58, g, h]), (1, [a, b, 58, c, d, 32])]) # rest"
  using assms
  apply (simp add: timeRangeRx_def timeToken_def opt_def lit_def digit_amatch_chr digit_not_space
      isDigit_def [of "canon _"] canon_def [of "numeral _"] isSpace_def [of "numeral _"]
      isDigit_def [of "numeral _"])
  done


lemma ms_timeRange_nondigit: "\<not> isDigit c \<Longrightarrow> ms True timeRangeRx (p, c # r, []) = []"
  by (simp add: timeRangeRx_def timeToken_def)

lemma execFrom_timeRange_skip:
  "\<forall>c\<in>set L. \<not> isDigit c \<Longrightarrow>
   execFrom True timeRangeRx p (L @ r) = execFrom True timeRangeRx (p + length L) r"
  by (induction L arbitrary: p) (simp_all add: execFrom_miss_Cons ms_timeRange_nondigit)

lemma exec_timeRange_clock:
  assumes "\<forall>c\<in>set L. \<not> isDigit c"
    and "isDigit a" "isDigit b" "isDigit c" "isDigit d"
    and "isDigit e" "isDigit f" "isDigit g" "isDigit h"
  shows "\<exists>w. exec True timeRangeRx (L @ [a, b, 58, c, d, 32, 45, 32, e, f, 58, g, h]) =
           Some \<lparr>index = length L, whole = w,
                 groups = [(2, [e, f, 58, g, h]), (1, [a, b, 58, c, d, 32])]\<rparr>"
proof -
  from ms_timeRange_clock [OF assms(2-), of "length L"] obtain rest where
    "ms True timeRangeRx (length L, [a, b, 58, c, d, 32, 45, 32, e, f, 58, g, h], []) =
       (length L + 13, [], [(2, [e, f, 58, g, h]), (1, [a, b, 58, c, d, 32])]) # rest"
    by blast
  from execFrom_hit [OF this] show ?thesis
    by (simp add: exec_def execFrom_timeRange_skip [OF assms(1)])
qed

lemma natToString_one: "n < 10 \<Longrightarrow> natToString n = [48 + n]"
  by (subst natToString.simps) simp

lemma natToString_two:
  "10 \<le> n \<Longrightarrow> n < 100 \<Longrightarrow> natToString n = [48 + n div 10, 48 + n mod 10]"
  by (subst natToString.simps) (simp add: natToString_one)

lemma pad_digits:
  assumes "isDigit a" "isDigit b"
  shows "pad (Num (10 * (int a - 48) + (int b - 48))) = [a, b]"
proof -
  define x y where "x = a - 48" and "y = b - 48"
  with assms have a: "a = 48 + x" and b: "b = 48 + y" and xy: "x < 10" "y < 10"
    by (auto simp: isDigit_def)
  have n: "10 * (int a - 48) + (int b - 48) = int (10 * x + y)"
    by (simp add: a b)
  show ?thesis
  proof (cases "x = 0")
    case True
    with xy show ?thesis
      unfolding n by (simp add: pad_def padStart2_def natToString_one a b)
  next
    case False
    with xy have "10 \<le> 10 * x + y" "10 * x + y < 100" by auto
    then have "natToString (10 * x + y) = [48 + (10 * x + y) div 10, 48 + (10 * x + y) mod 10]"
      by (rule natToString_two)
    moreover have "(10 * x + y) div 10 = x" "(10 * x + y) mod 10 = y"
      using xy by auto
    moreover have "toString (Num (int (10 * x + y))) = natToString (10 * x + y)"
      by (simp del: of_nat_add of_nat_mult)
    ultimately show ?thesis
      unfolding n by (simp add: pad_def padStart2_def a b del: of_nat_add of_nat_mult)
  qed
qed

lemma lowerUnit_same: "c < 65 \<Longrightarrow> lowerUnit c = [c]"
  by (simp add: lowerUnit_def)

lemma parse_clock:
  assumes "isDigit a" "isDigit b" "isDigit c" "isDigit d"
    and "clockValid (10 * (int a - 48) + (int b - 48)) (10 * (int c - 48) + (int d - 48))"
    and v: "v = [a, b, 58, c, d] \<or> v = [a, b, 58, c, d, 32]"
  shows "parseTimeTo24h v = Some [a, b, 58, c, d]"
proof -
  from assms(1-4) have lt: "a < 65" "b < 65" "c < 65" "d < 65"
    and ne: "a \<noteq> 46" "b \<noteq> 46" "c \<noteq> 46" "d \<noteq> 46"
    by (auto simp: isDigit_def)
  have sp: "isSpace 32" "\<not> isSpace 58" by (simp_all add: isSpace_def)
  from v have cl: "cleanText v = [a, b, 58, c, d]"
    using assms(1-4) lt ne sp
    by (auto simp: cleanText_def toLowerCase_def lowerUnit_same digit_not_space)
  have sh: "clockShape [a, b, 58, c, d] = Some ([a, b], Some [c, d], None)"
    using assms(1-4) by (simp add: clockShape_def hourPart_def minutePart_def meridiemPart_def)
  have "parseTimeTo24h v =
      clockRule (10 * (int a - 48) + (int b - 48)) (10 * (int c - 48) + (int d - 48)) None"
    by (simp add: parseTimeTo24h_by_shape cl sh algebra_simps)
  also have "\<dots> = Some (clockText (10 * (int a - 48) + (int b - 48)) (10 * (int c - 48) + (int d - 48)))"
    using assms(5) by (auto simp: clockRule_def clockValid_def)
  also have "\<dots> = Some [a, b, 58, c, d]"
    unfolding clockText_def pad_digits [OF assms(1,2)] pad_digits [OF assms(3,4)]
    by (simp add: js_def)
  finally show ?thesis .
qed

subsection \<open>The day-spec text of a line\<close>

text \<open>
  C2 (as the code has it). For a line that is not empty after trimming, does not contain
  \<open>closed\<close> and has a parseable time range, the day-spec text is the part of the trimmed
  line before its first digit when that part is not empty, and the whole trimmed line when
  the first digit is at position 0; the intervals of the line are those of the days
  parsed from that text, each normalised. A day-spec text without a day gives no interval.
\<close>

theorem day_spec_text:
  assumes "trim rawLine \<noteq> []"
    and "\<not> test True closedRx (trim rawLine)"
    and "parseTimeRange (trim rawLine) = Some timeRange"
  shows "parseHoursLines [rawLine] =
     concat (map normalizeSpan
       (map (\<lambda>d. \<lparr>day = d, open = fst timeRange, close = snd timeRange\<rparr>)
          (parseDaysPart
             (if takeWhile (\<lambda>c. \<not> isDigit c) (trim rawLine) = [] then trim rawLine
              else takeWhile (\<lambda>c. \<not> isDigit c) (trim rawLine)))))"
  using assms
  by (simp add: parseHoursLines_def Let_def daysPart_before_digit [symmetric])

theorem day_spec_text_witness:
  "trim (js ''Mon 9:00 - 17:00'') \<noteq> [] \<and>
   \<not> test True closedRx (trim (js ''Mon 9:00 - 17:00'')) \<and>
   parseTimeRange (trim (js ''Mon 9:00 - 17:00'')) = Some (js ''09:00'', js ''17:00'') \<and>
   takeWhile (\<lambda>c. \<not> isDigit c) (trim (js ''Mon 9:00 - 17:00'')) = js ''Mon '' \<and>
   parseHoursLines [js ''Mon 9:00 - 17:00''] =
     concat (map normalizeSpan
       (map (\<lambda>d. \<lparr>day = d, open = js ''09:00'', close = js ''17:00''\<rparr>)
          (parseDaysPart (js ''Mon ''))))"
proof -
  have h1: "trim (js ''Mon 9:00 - 17:00'') \<noteq> []" by code_simp
  have h2: "\<not> test True closedRx (trim (js ''Mon 9:00 - 17:00''))" by code_simp
  have h3: "parseTimeRange (trim (js ''Mon 9:00 - 17:00'')) = Some (js ''09:00'', js ''17:00'')"
    by code_simp
  have t: "takeWhile (\<lambda>c. \<not> isDigit c) (trim (js ''Mon 9:00 - 17:00'')) = js ''Mon ''"
    by code_simp
  have n: "js ''Mon '' \<noteq> []" by code_simp
  from day_spec_text [OF h1 h2 h3] h1 h2 h3 t n show ?thesis by simp
qed

text \<open>
  C2 as the specification states it, refuted: in \<open>9:00 - 17:00 Mon\<close> the first digit is at
  position 0, the day-spec text is the whole line and not the empty text, Monday is
  recognised and the line gives an interval.
\<close>

theorem digit_first_line_kept:
  "daysPart (trim (js ''9:00 - 17:00 Mon'')) = js ''9:00 - 17:00 Mon'' \<and>
   parseHoursLines [js ''9:00 - 17:00 Mon''] =
     [\<lparr>day = 1, open = js ''09:00'', close = js ''17:00''\<rparr>]"
  by code_simp

subsection \<open>Parsing the rendering of a canonical interval\<close>

lemma normalizeDash_same: "\<forall>c\<in>set s. c \<noteq> 8211 \<and> c \<noteq> 8212 \<Longrightarrow> normalizeDash s = s"
  by (simp add: normalizeDash_def map_idI)

lemma digit_canon: "isDigit x \<Longrightarrow> canon x = x"
  by (simp add: isDigit_def canon_def)

lemma digit_small: "isDigit x \<Longrightarrow> x < 65 \<and> canon x < 65"
  by (simp add: isDigit_def canon_def)

lemma canon_punct: "canon 32 = 32" "canon 58 = 58" "canon 45 = 45"
  by (simp_all add: canon_def)

lemma rendered_tail_chars:
  assumes "isDigit a" "isDigit b" "isDigit c" "isDigit d"
    and "isDigit e" "isDigit f" "isDigit g" "isDigit h"
  shows "\<forall>x\<in>set [32, a, b, 58, c, d, 32, 45, 32, e, f, 58, g, h]. x < 65 \<and> canon x < 65"
  using assms by (simp add: digit_small canon_punct)

lemma lt_not_eqq: "lt x y \<Longrightarrow> \<not> eqq x y"
  by (cases x; cases y) auto

lemma parseTimeRange_rendered:
  assumes L: "\<forall>c\<in>set L. \<not> isDigit c \<and> c \<noteq> 8211 \<and> c \<noteq> 8212 \<and> canon c \<noteq> 80"
    and L2: "(\<forall>c\<in>set L. canon c \<noteq> 79) \<or> (\<forall>c\<in>set L. canon c \<noteq> 82)"
    and dg: "isDigit a" "isDigit b" "isDigit c" "isDigit d"
      "isDigit e" "isDigit f" "isDigit g" "isDigit h"
    and v1: "clockValid (10 * (int a - 48) + (int b - 48)) (10 * (int c - 48) + (int d - 48))"
    and v2: "clockValid (10 * (int e - 48) + (int f - 48)) (10 * (int g - 48) + (int h - 48))"
  shows "parseTimeRange (L @ [32, a, b, 58, c, d, 32, 45, 32, e, f, 58, g, h]) =
           Some ([a, b, 58, c, d], [e, f, 58, g, h])"
proof -
  let ?T = "[32, a, b, 58, c, d, 32, 45, 32, e, f, 58, g, h]"
  let ?line = "L @ ?T"
  note tc = rendered_tail_chars [OF dg]
  have nd: "normalizeDash ?line = ?line"
  proof (rule normalizeDash_same)
    from tc have "\<forall>x\<in>set ?T. x \<noteq> 8211 \<and> x \<noteq> 8212" by fastforce
    with L show "\<forall>c\<in>set ?line. c \<noteq> 8211 \<and> c \<noteq> 8212" by auto
  qed
  have t1: "\<not> test True hours24Rx ?line"
  proof -
    from tc have "\<forall>x\<in>set ?T. canon x \<noteq> 79" "\<forall>x\<in>set ?T. canon x \<noteq> 82" by fastforce+
    with L2 have "(\<forall>c\<in>set ?line. canon c \<noteq> 79) \<or> (\<forall>c\<in>set ?line. canon c \<noteq> 82)" by auto
    then show ?thesis using test_needs needs_hours24 by blast
  qed
  have t2: "\<not> test True open24Rx ?line"
  proof -
    from tc have "\<forall>x\<in>set ?T. canon x \<noteq> 80" by fastforce
    with L have "\<forall>c\<in>set ?line. canon c \<noteq> 80" by auto
    then show ?thesis using test_needs needs_open24 by blast
  qed
  have "isDigit 32 = False" by (simp add: isDigit_def)
  with L have pre: "\<forall>c\<in>set (L @ [32]). \<not> isDigit c" by simp
  from exec_timeRange_clock [OF pre dg] obtain w where
    ex: "exec True timeRangeRx ?line =
           Some \<lparr>index = length (L @ [32]), whole = w,
                 groups = [(2, [e, f, 58, g, h]), (1, [a, b, 58, c, d, 32])]\<rparr>"
    by auto
  have p1: "parseTimeTo24h [a, b, 58, c, d, 32] = Some [a, b, 58, c, d]"
    by (rule parse_clock [OF dg(1-4) v1]) simp
  have p2: "parseTimeTo24h [e, f, 58, g, h] = Some [e, f, 58, g, h]"
    by (rule parse_clock [OF dg(5-8) v2]) simp
  show ?thesis
    unfolding parseTimeRange_def Let_def nd using t1 t2
    by (simp add: ex group_def p1 p2)
qed

lemma round_trip_label:
  assumes L0: "L \<noteq> []" "\<not> isSpace (hd L)"
    and L: "\<forall>c\<in>set L. \<not> isDigit c \<and> c \<noteq> 8211 \<and> c \<noteq> 8212 \<and> canon c \<noteq> 80"
    and L1: "\<forall>c\<in>set L. canon c \<noteq> 67"
    and L2: "(\<forall>c\<in>set L. canon c \<noteq> 79) \<or> (\<forall>c\<in>set L. canon c \<noteq> 82)"
    and L3: "parseDaysPart (L @ [32]) = [dy]"
    and dg: "isDigit a" "isDigit b" "isDigit c" "isDigit d"
      "isDigit e" "isDigit f" "isDigit g" "isDigit h"
    and v1: "clockValid (10 * (int a - 48) + (int b - 48)) (10 * (int c - 48) + (int d - 48))"
    and v2: "clockValid (10 * (int e - 48) + (int f - 48)) (10 * (int g - 48) + (int h - 48))"
    and less: "lt (toMinutes [a, b, 58, c, d]) (toMinutes [e, f, 58, g, h])"
  shows "parseHoursLines [L @ [32, a, b, 58, c, d, 32, 45, 32, e, f, 58, g, h]] =
           [\<lparr>day = dy, open = [a, b, 58, c, d], close = [e, f, 58, g, h]\<rparr>]"
proof -
  let ?T = "[32, a, b, 58, c, d, 32, 45, 32, e, f, 58, g, h]"
  let ?line = "L @ ?T"
  note tc = rendered_tail_chars [OF dg]
  have tr: "trim ?line = ?line"
  proof (rule trim_no_space)
    show "?line \<noteq> []" by simp
    from L0 show "\<not> isSpace (hd ?line)" by simp
    from dg(8) show "\<not> isSpace (last ?line)" by (simp add: digit_not_space)
  qed
  have cl: "\<not> test True closedRx ?line"
  proof -
    from tc have "\<forall>x\<in>set ?T. canon x \<noteq> 67" by fastforce
    with L1 have "\<forall>c\<in>set ?line. canon c \<noteq> 67" by auto
    then show ?thesis using test_needs needs_closed by blast
  qed
  note pr = parseTimeRange_rendered [OF L L2 dg v1 v2]
  have "isDigit 32 = False" by (simp add: isDigit_def)
  with L dg(1) have "takeWhile (\<lambda>c. \<not> isDigit c) ?line = L @ [32]"
    by (simp add: takeWhile_append2)
  then have dp: "daysPart ?line = L @ [32]"
    by (simp add: daysPart_before_digit)
  have "collect [?line] [] = [\<lparr>day = dy, open = [a, b, 58, c, d], close = [e, f, 58, g, h]\<rparr>]"
    using cl by (simp add: tr pr dp L3 del: append.simps)
  then show ?thesis
    using less by (simp add: parseHoursLines_def normalizeSpan_def lt_not_eqq)
qed


lemma labelOk_all: "dy < 7 \<Longrightarrow> labelOk dy"
proof -
  have "list_all labelOk [0..<7]" by code_simp
  then show "dy < 7 \<Longrightarrow> labelOk dy" by (simp add: list_all_iff)
qed

lemma isClockTime_shape:
  assumes "isClockTime s"
  obtains a b c d where "s = [a, b, 58, c, d]" "isDigit a" "isDigit b" "isDigit c" "isDigit d"
    "clockValid (10 * (int a - 48) + (int b - 48)) (10 * (int c - 48) + (int d - 48))"
  using assms by (auto simp: isClockTime_def split: list.splits)

text \<open>
  C9. For every canonical interval, parsing its rendering \<open><Day> <open> - <close>\<close> with
  \<open>parseHoursLines\<close> gives exactly that interval.
\<close>

theorem render_round_trip:
  assumes "canonical span"
  shows "parseHoursLines [render span] = [span]"
proof -
  from assms have dy: "day span < 7" and o: "isClockTime (open span)"
    and c: "isClockTime (close span)"
    and less: "lt (toMinutes (open span)) (toMinutes (close span))"
    by (simp_all add: canonical_def)
  from o obtain a b c d where op: "open span = [a, b, 58, c, d]"
    and d1: "isDigit a" "isDigit b" "isDigit c" "isDigit d"
    and v1: "clockValid (10 * (int a - 48) + (int b - 48)) (10 * (int c - 48) + (int d - 48))"
    by (rule isClockTime_shape)
  from c obtain e f g h where cl: "close span = [e, f, 58, g, h]"
    and d2: "isDigit e" "isDigit f" "isDigit g" "isDigit h"
    and v2: "clockValid (10 * (int e - 48) + (int f - 48)) (10 * (int g - 48) + (int h - 48))"
    by (rule isClockTime_shape)
  let ?L = "DAY_LABELS ! day span"
  from labelOk_all [OF dy] have
    L0: "?L \<noteq> []" "\<not> isSpace (hd ?L)"
    and L: "\<forall>c\<in>set ?L. \<not> isDigit c \<and> c \<noteq> 8211 \<and> c \<noteq> 8212 \<and> canon c \<noteq> 80"
    and L1: "\<forall>c\<in>set ?L. canon c \<noteq> 67"
    and L2: "(\<forall>c\<in>set ?L. canon c \<noteq> 79) \<or> (\<forall>c\<in>set ?L. canon c \<noteq> 82)"
    and L3: "parseDaysPart (?L @ [32]) = [day span]"
    by (auto simp: labelOk_def list_all_iff)
  from less have less': "lt (toMinutes [a, b, 58, c, d]) (toMinutes [e, f, 58, g, h])"
    by (simp add: op cl)
  have r: "render span = ?L @ [32, a, b, 58, c, d, 32, 45, 32, e, f, 58, g, h]"
    by (simp add: render_def op cl js_def)
  have s: "span = \<lparr>day = day span, open = [a, b, 58, c, d], close = [e, f, 58, g, h]\<rparr>"
    by (simp add: op [symmetric] cl [symmetric])
  from round_trip_label [OF L0 L L1 L2 L3 d1 d2 v1 v2 less']
  show ?thesis unfolding r using s by simp
qed

theorem render_round_trip_witness:
  "canonical \<lparr>day = 1, open = js ''09:00'', close = js ''17:00''\<rparr> \<and>
   parseHoursLines [js ''Mon 09:00 - 17:00''] =
     [\<lparr>day = 1, open = js ''09:00'', close = js ''17:00''\<rparr>]"
proof -
  have c: "canonical \<lparr>day = 1, open = js ''09:00'', close = js ''17:00''\<rparr>"
    by code_simp
  have r: "render \<lparr>day = 1, open = js ''09:00'', close = js ''17:00''\<rparr> = js ''Mon 09:00 - 17:00''"
    by code_simp
  from render_round_trip [OF c] c show ?thesis unfolding r by simp
qed

end
